theory Spec2Isabelle
  imports Complex_Main
begin

section \<open>SVG path to CSS clip-path conversion (lib/pathConverter.ts)\<close>

text \<open>
  Conventions of the embedding.
  \<^item> A JavaScript string is a \<open>string\<close>, a list of characters with codes below 256; a
    thrown \<open>Error\<close> is the left injection of a sum and carries the message text.
  \<^item> A JavaScript \<open>number\<close> is a real number. This is an idealisation of IEEE doubles:
    arithmetic is exact (no rounding), no operation overflows, and the special values
    \<open>NaN\<close> and \<open>Infinity\<close> do not exist, except that the \<open>NaN\<close> result of \<open>parseFloat\<close>
    is the value \<open>None\<close>. Where the source divides by zero the model has the value of
    division in HOL. The embedding therefore agrees with the source, up to the rounding
    of doubles, only where every value that the source computes is a finite double.
  \<^item> A loop that the source may run forever is a \<open>partial_function\<close> in the option
    monad: \<open>None\<close> means that the call does not return.
\<close>

subsection \<open>Strings\<close>

type_synonym error = string

definition isWhiteSpace :: "char \<Rightarrow> bool" where
  \<comment> \<open>the white space and line terminator characters removed by \<open>String.prototype.trim\<close>\<close>
  "isWhiteSpace c \<longleftrightarrow> c \<in> {CHR 0x09, CHR 0x0A, CHR 0x0B, CHR 0x0C, CHR 0x0D, CHR 0x20, CHR 0xA0}"

definition trim :: "string \<Rightarrow> string" where
  "trim s = rev (dropWhile isWhiteSpace (rev (dropWhile isWhiteSpace s)))"

definition isCommandLetter :: "char \<Rightarrow> bool" where
  \<comment> \<open>the character class \<open>[MmLlHhVvCcSsQqTtAaZz]\<close>\<close>
  "isCommandLetter c \<longleftrightarrow> c \<in> set ''MmLlHhVvCcSsQqTtAaZz''"

definition isValidSvgPath :: "string \<Rightarrow> bool" where
  "isValidSvgPath path \<longleftrightarrow> (\<exists>c \<in> set path. isCommandLetter c)"

definition convertSvgPathToClipPath :: "string \<Rightarrow> error + string" where
  "convertSvgPathToClipPath svgPath =
     (if svgPath = [] \<or> trim svgPath = [] then Inl ''SVG path cannot be empty''
      else if \<not> isValidSvgPath (trim svgPath) then Inl ''Invalid SVG path format''
      else Inr (''clip-path: path('' @ [CHR 0x27] @ trim svgPath @ [CHR 0x27] @ '');''))"

subsection \<open>Numbers and their text\<close>

definition isDigit :: "char \<Rightarrow> bool" where
  \<comment> \<open>the character class \<open>[0-9]\<close>\<close>
  "isDigit c \<longleftrightarrow> c \<in> set ''0123456789''"

definition digitValue :: "char \<Rightarrow> nat" where
  "digitValue c = of_char c - 48"

definition digitsValue :: "string \<Rightarrow> nat" where
  "digitsValue ds = foldl (\<lambda>n c. 10 * n + digitValue c) 0 ds"

definition scale10 :: "real \<Rightarrow> int \<Rightarrow> real" where
  "scale10 m e = (if 0 \<le> e then m * 10 ^ nat e else m / 10 ^ nat (- e))"

definition parseSign :: "string \<Rightarrow> int \<times> string" where
  "parseSign s =
     (case s of
        [] \<Rightarrow> (1, s)
      | c # r \<Rightarrow> if c = CHR ''-'' then (- 1, r) else if c = CHR ''+'' then (1, r) else (1, s))"

definition parseExponent :: "string \<Rightarrow> int" where
  \<comment> \<open>an exponent part counts only when it has at least one digit\<close>
  "parseExponent s =
     (case s of
        [] \<Rightarrow> 0
      | c # r \<Rightarrow>
          if c = CHR ''e'' \<or> c = CHR ''E'' then
            (case parseSign r of (sg, r') \<Rightarrow>
               if takeWhile isDigit r' = [] then 0
               else sg * int (digitsValue (takeWhile isDigit r')))
          else 0)"

definition parseFloat :: "string \<Rightarrow> real option" where
  \<comment> \<open>The built-in \<open>parseFloat\<close> on a string without leading white space: the value of
      the longest prefix that is a decimal literal, \<open>None\<close> (for \<open>NaN\<close>) when no prefix is one.
      The value is the exact decimal value; the built-in rounds it to the nearest double and
      gives \<open>Infinity\<close> beyond the range of doubles.\<close>
  "parseFloat s =
     (case parseSign s of (sg, r1) \<Rightarrow>
        let ip = takeWhile isDigit r1;
            r2 = dropWhile isDigit r1;
            hasDot = (r2 \<noteq> [] \<and> hd r2 = CHR ''.'');
            fp = (if hasDot then takeWhile isDigit (tl r2) else []);
            r3 = (if hasDot then dropWhile isDigit (tl r2) else r2)
        in if ip = [] \<and> fp = [] then None
           else Some (scale10
                  (real_of_int sg * (real (digitsValue ip) + real (digitsValue fp) / 10 ^ length fp))
                  (parseExponent r3)))"

fun showNat :: "nat \<Rightarrow> string" where
  "showNat n = (if n < 10 then [char_of (48 + n)] else showNat (n div 10) @ [char_of (48 + n mod 10)])"

declare showNat.simps [simp del]

subsection \<open>Tokenizer\<close>

datatype Token = Command char | Number real

fun isNumberToken :: "Token \<Rightarrow> bool" where
  "isNumberToken (Number v) = True"
| "isNumberToken (Command c) = False"

definition isSeparator :: "char \<Rightarrow> bool" where
  "isSeparator c \<longleftrightarrow> c = CHR '' '' \<or> c = CHR 0x09 \<or> c = CHR 0x0A \<or> c = CHR 0x0D \<or> c = CHR '',''"

definition isNumberStart :: "char \<Rightarrow> bool" where
  \<comment> \<open>the character class \<open>[0-9+\-.]\<close>\<close>
  "isNumberStart c \<longleftrightarrow> isDigit c \<or> c = CHR ''+'' \<or> c = CHR ''-'' \<or> c = CHR ''.''"

text \<open>The inner loop of the tokenizer, which collects the text of one number from index \<open>i\<close>.\<close>

function scanNumber :: "string \<Rightarrow> nat \<Rightarrow> string \<Rightarrow> bool \<Rightarrow> bool \<Rightarrow> string \<times> nat" where
  "scanNumber path i numStr hasDecimal hasExponent =
     (if i < length path then
        (if isDigit (path ! i) then
           scanNumber path (i + 1) (numStr @ [path ! i]) hasDecimal hasExponent
         else if path ! i = CHR ''.'' \<and> \<not> hasDecimal \<and> \<not> hasExponent then
           scanNumber path (i + 1) (numStr @ [path ! i]) True hasExponent
         else if (path ! i = CHR ''e'' \<or> path ! i = CHR ''E'') \<and> \<not> hasExponent \<and> 0 < length numStr then
           (if i + 1 < length path \<and> (path ! (i + 1) = CHR ''+'' \<or> path ! (i + 1) = CHR ''-'') then
              scanNumber path (i + 2) (numStr @ [path ! i, path ! (i + 1)]) hasDecimal True
            else scanNumber path (i + 1) (numStr @ [path ! i]) hasDecimal True)
         else (numStr, i))
      else (numStr, i))"
  by pat_completeness auto
termination
  by (relation "measure (\<lambda>(path, i, numStr, hasDecimal, hasExponent). length path - i)") auto

declare scanNumber.simps [simp del]

definition invalidNumStr :: "string \<Rightarrow> bool" where
  "invalidNumStr numStr \<longleftrightarrow>
     numStr = [] \<or> numStr = ''.'' \<or> numStr = ''-'' \<or> numStr = ''+'' \<or> numStr = ''-.'' \<or> numStr = ''+.''
     \<or> (numStr \<noteq> [] \<and> (last numStr = CHR ''e'' \<or> last numStr = CHR ''E''))"

definition quoted :: "string \<Rightarrow> string" where
  "quoted s = [CHR 0x22] @ s @ [CHR 0x22]"

definition scanStart :: "string \<Rightarrow> nat \<Rightarrow> string \<times> nat" where
  \<comment> \<open>sign handling, then the inner loop\<close>
  "scanStart path i =
     (if path ! i = CHR ''+'' \<or> path ! i = CHR ''-'' then scanNumber path (i + 1) [path ! i] False False
      else scanNumber path i [] False False)"

function tokenizeLoop :: "string \<Rightarrow> nat \<Rightarrow> Token list \<Rightarrow> error + Token list" where
  "tokenizeLoop path i tokens =
     (if i < length path then
        (if isSeparator (path ! i) then tokenizeLoop path (i + 1) tokens
         else if isCommandLetter (path ! i) then tokenizeLoop path (i + 1) (tokens @ [Command (path ! i)])
         else if isNumberStart (path ! i) then
           (if invalidNumStr (fst (scanStart path i)) then
              Inl (''Invalid number format: '' @ quoted (fst (scanStart path i)))
            else
              (case parseFloat (fst (scanStart path i)) of
                 None \<Rightarrow> Inl (''Invalid numeric value: '' @ quoted (fst (scanStart path i)))
               | Some num \<Rightarrow> tokenizeLoop path (snd (scanStart path i)) (tokens @ [Number num])))
         else Inl (''Unexpected character '' @ quoted [path ! i] @ '' at position '' @ showNat i))
      else Inr tokens)"
  by pat_completeness auto
termination
proof (relation "measure (\<lambda>(path, i, tokens). length path - i)")
  fix path :: string and i :: nat and tokens :: "Token list" and x2 :: real
  assume less: "i < length path" and start: "isNumberStart (path ! i)"
  have ge: "j \<le> snd (scanNumber p j numStr hasDecimal hasExponent)"
    for p j numStr hasDecimal hasExponent
  proof (induction p j numStr hasDecimal hasExponent rule: scanNumber.induct)
    case (1 p j numStr hasDecimal hasExponent)
    show ?case
      using "1.IH" by (subst scanNumber.simps) (auto simp del: One_nat_def split: if_splits)
  qed
  have "i < snd (scanStart path i)"
  proof (cases "path ! i = CHR ''+'' \<or> path ! i = CHR ''-''")
    case True
    then show ?thesis
      using ge [of "i + 1" path "[path ! i]" False False] by (simp add: scanStart_def)
  next
    case False
    then have "isDigit (path ! i) \<or> path ! i = CHR ''.''"
      using start by (auto simp: isNumberStart_def)
    then show ?thesis
    proof
      assume "isDigit (path ! i)"
      then show ?thesis
        using False less ge [of "i + 1" path "[] @ [path ! i]" False False]
        by (simp add: scanStart_def scanNumber.simps [of path i "[]"])
    next
      assume d: "path ! i = CHR ''.''"
      then have "\<not> isDigit (path ! i)" by (simp add: isDigit_def)
      then show ?thesis
        using False d less ge [of "i + 1" path "[] @ [path ! i]" True False]
        by (simp add: scanStart_def scanNumber.simps [of path i "[]"])
    qed
  qed
  then show "((path, snd (scanStart path i), tokens @ [Number x2]), path, i, tokens)
      \<in> measure (\<lambda>(path, i, tokens). length path - i)"
    using less by simp
qed auto

declare tokenizeLoop.simps [simp del]

definition tokenizePath :: "string \<Rightarrow> error + Token list" where
  "tokenizePath path = tokenizeLoop path 0 []"

subsection \<open>Curve and arc flattening\<close>

text \<open>A point \<open>{x, y}\<close> is the pair of its coordinates.\<close>

type_synonym Point = "real \<times> real"

definition cubicBezier ::
  "real \<Rightarrow> real \<Rightarrow> real \<Rightarrow> real \<Rightarrow> real \<Rightarrow> real \<Rightarrow> real \<Rightarrow> real \<Rightarrow> real \<Rightarrow> Point" where
  "cubicBezier x0 y0 x1 y1 x2 y2 x3 y3 t =
     (let mt = 1 - t; mt2 = mt * mt; mt3 = mt2 * mt; t2 = t * t; t3 = t2 * t
      in (mt3 * x0 + 3 * mt2 * t * x1 + 3 * mt * t2 * x2 + t3 * x3,
          mt3 * y0 + 3 * mt2 * t * y1 + 3 * mt * t2 * y2 + t3 * y3))"

definition quadraticBezier ::
  "real \<Rightarrow> real \<Rightarrow> real \<Rightarrow> real \<Rightarrow> real \<Rightarrow> real \<Rightarrow> real \<Rightarrow> Point" where
  "quadraticBezier x0 y0 x1 y1 x2 y2 t =
     (let mt = 1 - t; mt2 = mt * mt; t2 = t * t
      in (mt2 * x0 + 2 * mt * t * x1 + t2 * x2,
          mt2 * y0 + 2 * mt * t * y1 + t2 * y2))"

definition loopIndices :: "real \<Rightarrow> real list" where
  \<comment> \<open>the values of the counter of \<open>for (let t = 1; t <= segments; t++)\<close>\<close>
  "loopIndices segments = map real [1..<Suc (nat \<lfloor>segments\<rfloor>)]"

definition atan2 :: "real \<Rightarrow> real \<Rightarrow> real" where
  \<comment> \<open>\<open>Math.atan2(y, x)\<close>\<close>
  "atan2 b a =
     (if 0 < a then arctan (b / a)
      else if a < 0 then (if 0 \<le> b then arctan (b / a) + pi else arctan (b / a) - pi)
      else if 0 < b then pi / 2
      else if b < 0 then - pi / 2
      else 0)"

definition approximateArc ::
  "real \<Rightarrow> real \<Rightarrow> real \<Rightarrow> real \<Rightarrow> real \<Rightarrow> bool \<Rightarrow> bool \<Rightarrow> real \<Rightarrow> real \<Rightarrow> real \<Rightarrow> Point list" where
  \<comment> \<open>The guard on the radii is as in the source. The other branch is in exact arithmetic;
      where the source divides by zero (coincident end points) and gets \<open>NaN\<close>, it differs.\<close>
  "approximateArc x1 y1 rx0 ry0 xAxisRotation largeArcFlag sweepFlag x2 y2 segments =
     (if rx0 = 0 \<or> ry0 = 0 then [(x2, y2)]
      else
        let phi = (xAxisRotation * pi) / 180;
            cosPhi = cos phi;
            sinPhi = sin phi;
            dx = (x1 - x2) / 2;
            dy = (y1 - y2) / 2;
            x1p = cosPhi * dx + sinPhi * dy;
            y1p = - sinPhi * dx + cosPhi * dy;
            lambda = (x1p * x1p) / (\<bar>rx0\<bar> * \<bar>rx0\<bar>) + (y1p * y1p) / (\<bar>ry0\<bar> * \<bar>ry0\<bar>);
            rx = (if 1 < lambda then \<bar>rx0\<bar> * sqrt lambda else \<bar>rx0\<bar>);
            ry = (if 1 < lambda then \<bar>ry0\<bar> * sqrt lambda else \<bar>ry0\<bar>);
            sq = max 0 ((rx * rx * ry * ry - rx * rx * y1p * y1p - ry * ry * x1p * x1p) /
                        (rx * rx * y1p * y1p + ry * ry * x1p * x1p));
            sign = (if largeArcFlag \<noteq> sweepFlag then 1 else - 1);
            cxp = sign * sqrt sq * (rx * y1p) / ry;
            cyp = sign * sqrt sq * - (ry * x1p) / rx;
            cx = cosPhi * cxp - sinPhi * cyp + (x1 + x2) / 2;
            cy = sinPhi * cxp + cosPhi * cyp + (y1 + y2) / 2;
            theta1 = atan2 ((y1p - cyp) / ry) ((x1p - cxp) / rx);
            theta2 = atan2 ((- y1p - cyp) / ry) ((- x1p - cxp) / rx);
            dTheta0 = theta2 - theta1;
            dTheta = (if sweepFlag \<and> dTheta0 < 0 then dTheta0 + 2 * pi
                      else if \<not> sweepFlag \<and> 0 < dTheta0 then dTheta0 - 2 * pi
                      else dTheta0)
        in map (\<lambda>i. let t = i / segments;
                       theta = theta1 + t * dTheta;
                       cosTheta = cos theta;
                       sinTheta = sin theta
                   in (cosPhi * rx * cosTheta - sinPhi * ry * sinTheta + cx,
                       sinPhi * rx * cosTheta + cosPhi * ry * sinTheta + cy))
               (loopIndices segments))"

subsection \<open>Path interpreter\<close>

text \<open>
  The variables of \<open>extractPointsFromPath\<close> that its loops update. The field \<open>idx\<close> is
  the token index, the variable \<open>i\<close> of the source.
\<close>

record Interp =
  absolutePoints :: "Point list"
  currentX :: real
  currentY :: real
  subpathStartX :: real
  subpathStartY :: real
  lastControlX :: real
  lastControlY :: real
  lastCommand :: string
  idx :: nat

definition initialInterp :: Interp where
  "initialInterp =
     \<lparr>absolutePoints = [], currentX = 0, currentY = 0, subpathStartX = 0, subpathStartY = 0,
      lastControlX = 0, lastControlY = 0, lastCommand = [], idx = 0\<rparr>"

definition bindE :: "error + 'a \<Rightarrow> ('a \<Rightarrow> error + 'b) \<Rightarrow> error + 'b" where
  \<comment> \<open>sequencing of statements that may throw\<close>
  "bindE m f = (case m of Inl e \<Rightarrow> Inl e | Inr v \<Rightarrow> f v)"

definition getNumber :: "string \<Rightarrow> Token list \<Rightarrow> Interp \<Rightarrow> error + real \<times> Interp" where
  "getNumber context tokens s =
     (if length tokens \<le> idx s \<or> \<not> isNumberToken (tokens ! idx s) then
        Inl (''Expected number for '' @ context)
      else
        (case tokens ! idx s of
           Number v \<Rightarrow> Inr (v, s\<lparr>idx := idx s + 1\<rparr>)
         | Command c \<Rightarrow> Inl (''Expected number for '' @ context)))"

definition pushCurrent :: "Interp \<Rightarrow> Interp" where
  \<comment> \<open>\<open>absolutePoints.push({ x: currentX, y: currentY })\<close>\<close>
  "pushCurrent s = s\<lparr>absolutePoints := absolutePoints s @ [(currentX s, currentY s)]\<rparr>"

definition markSubpathStart :: "bool \<Rightarrow> Interp \<Rightarrow> Interp" where
  "markSubpathStart isFirstCoordSet s =
     (if isFirstCoordSet then s\<lparr>subpathStartX := currentX s, subpathStartY := currentY s\<rparr> else s)"

definition emitCubic :: "real \<Rightarrow> real \<Rightarrow> real \<Rightarrow> real \<Rightarrow> real \<Rightarrow> real \<Rightarrow> real \<Rightarrow> Interp \<Rightarrow> Interp" where
  \<comment> \<open>the flattening loop of a cubic command and the assignments after it\<close>
  "emitCubic curveSegments x1 y1 x2 y2 x y s =
     s\<lparr>absolutePoints := absolutePoints s @
          map (\<lambda>t. cubicBezier (currentX s) (currentY s) x1 y1 x2 y2 x y (t / curveSegments))
            (loopIndices curveSegments),
       lastControlX := x2, lastControlY := y2, currentX := x, currentY := y\<rparr>"

definition emitQuadratic :: "real \<Rightarrow> real \<Rightarrow> real \<Rightarrow> real \<Rightarrow> real \<Rightarrow> Interp \<Rightarrow> Interp" where
  \<comment> \<open>the flattening loop of a quadratic command and the assignments after it\<close>
  "emitQuadratic curveSegments x1 y1 x y s =
     s\<lparr>absolutePoints := absolutePoints s @
          map (\<lambda>t. quadraticBezier (currentX s) (currentY s) x1 y1 x y (t / curveSegments))
            (loopIndices curveSegments),
       lastControlX := x1, lastControlY := y1, currentX := x, currentY := y\<rparr>"

definition emitArc :: "real \<Rightarrow> real \<Rightarrow> real \<Rightarrow> real \<Rightarrow> real \<Rightarrow> real \<Rightarrow> real \<Rightarrow> real \<Rightarrow> Interp \<Rightarrow> Interp" where
  "emitArc arcSegments rx ry xAxisRotation largeArcFlag sweepFlag x y s =
     s\<lparr>absolutePoints := absolutePoints s @
          approximateArc (currentX s) (currentY s) rx ry xAxisRotation
            (largeArcFlag \<noteq> 0) (sweepFlag \<noteq> 0) x y arcSegments,
       currentX := x, currentY := y\<rparr>"

definition afterCubic :: "string \<Rightarrow> bool" where
  "afterCubic lc \<longleftrightarrow> lc = ''C'' \<or> lc = ''c'' \<or> lc = ''S'' \<or> lc = ''s''"

definition afterQuadratic :: "string \<Rightarrow> bool" where
  "afterQuadratic lc \<longleftrightarrow> lc = ''Q'' \<or> lc = ''q'' \<or> lc = ''T'' \<or> lc = ''t''"

definition reflectX :: "bool \<Rightarrow> Interp \<Rightarrow> real" where
  "reflectX smooth s = (if smooth then 2 * currentX s - lastControlX s else currentX s)"

definition reflectY :: "bool \<Rightarrow> Interp \<Rightarrow> real" where
  "reflectY smooth s = (if smooth then 2 * currentY s - lastControlY s else currentY s)"

text \<open>
  One definition for each case of the \<open>switch\<close> on the command letter. Each reads its
  operands with \<open>getNumber\<close> in the order of the source and stops at the first operand
  that is missing.
\<close>

definition exec_M :: "Token list \<Rightarrow> bool \<Rightarrow> Interp \<Rightarrow> error + Interp" where
  "exec_M tokens isFirstCoordSet s =
     bindE (getNumber ''M command x-coordinate'' tokens s) (\<lambda>(vx, s1).
     bindE (getNumber ''M command y-coordinate'' tokens (s1\<lparr>currentX := vx\<rparr>)) (\<lambda>(vy, s2).
       Inr (pushCurrent (markSubpathStart isFirstCoordSet (s2\<lparr>currentY := vy\<rparr>)))))"

definition exec_m :: "Token list \<Rightarrow> bool \<Rightarrow> Interp \<Rightarrow> error + Interp" where
  "exec_m tokens isFirstCoordSet s =
     bindE (getNumber ''m command x-coordinate'' tokens s) (\<lambda>(dx, s1).
     bindE (getNumber ''m command y-coordinate'' tokens s1) (\<lambda>(dy, s2).
       Inr (pushCurrent (markSubpathStart isFirstCoordSet
              (s2\<lparr>currentX := currentX s2 + dx, currentY := currentY s2 + dy\<rparr>)))))"

definition exec_L :: "Token list \<Rightarrow> Interp \<Rightarrow> error + Interp" where
  "exec_L tokens s =
     bindE (getNumber ''L command x-coordinate'' tokens s) (\<lambda>(vx, s1).
     bindE (getNumber ''L command y-coordinate'' tokens (s1\<lparr>currentX := vx\<rparr>)) (\<lambda>(vy, s2).
       Inr (pushCurrent (s2\<lparr>currentY := vy\<rparr>))))"

definition exec_l :: "Token list \<Rightarrow> Interp \<Rightarrow> error + Interp" where
  "exec_l tokens s =
     bindE (getNumber ''l command x-coordinate'' tokens s) (\<lambda>(dx, s1).
     bindE (getNumber ''l command y-coordinate'' tokens (s1\<lparr>currentX := currentX s1 + dx\<rparr>)) (\<lambda>(dy, s2).
       Inr (pushCurrent (s2\<lparr>currentY := currentY s2 + dy\<rparr>))))"

definition exec_H :: "Token list \<Rightarrow> Interp \<Rightarrow> error + Interp" where
  "exec_H tokens s =
     bindE (getNumber ''H command x-coordinate'' tokens s) (\<lambda>(vx, s1).
       Inr (pushCurrent (s1\<lparr>currentX := vx\<rparr>)))"

definition exec_h :: "Token list \<Rightarrow> Interp \<Rightarrow> error + Interp" where
  "exec_h tokens s =
     bindE (getNumber ''h command x-coordinate'' tokens s) (\<lambda>(dx, s1).
       Inr (pushCurrent (s1\<lparr>currentX := currentX s1 + dx\<rparr>)))"

definition exec_V :: "Token list \<Rightarrow> Interp \<Rightarrow> error + Interp" where
  "exec_V tokens s =
     bindE (getNumber ''V command y-coordinate'' tokens s) (\<lambda>(vy, s1).
       Inr (pushCurrent (s1\<lparr>currentY := vy\<rparr>)))"

definition exec_v :: "Token list \<Rightarrow> Interp \<Rightarrow> error + Interp" where
  "exec_v tokens s =
     bindE (getNumber ''v command y-coordinate'' tokens s) (\<lambda>(dy, s1).
       Inr (pushCurrent (s1\<lparr>currentY := currentY s1 + dy\<rparr>)))"

definition exec_C :: "real \<Rightarrow> Token list \<Rightarrow> Interp \<Rightarrow> error + Interp" where
  "exec_C curveSegments tokens s =
     bindE (getNumber ''C command control point 1 x'' tokens s) (\<lambda>(x1, s1).
     bindE (getNumber ''C command control point 1 y'' tokens s1) (\<lambda>(y1, s2).
     bindE (getNumber ''C command control point 2 x'' tokens s2) (\<lambda>(x2, s3).
     bindE (getNumber ''C command control point 2 y'' tokens s3) (\<lambda>(y2, s4).
     bindE (getNumber ''C command end x'' tokens s4) (\<lambda>(vx, s5).
     bindE (getNumber ''C command end y'' tokens s5) (\<lambda>(vy, s6).
       Inr (emitCubic curveSegments x1 y1 x2 y2 vx vy s6)))))))"

definition exec_c :: "real \<Rightarrow> Token list \<Rightarrow> Interp \<Rightarrow> error + Interp" where
  "exec_c curveSegments tokens s =
     bindE (getNumber ''c command control point 1 x'' tokens s) (\<lambda>(dx1, s1).
     bindE (getNumber ''c command control point 1 y'' tokens s1) (\<lambda>(dy1, s2).
     bindE (getNumber ''c command control point 2 x'' tokens s2) (\<lambda>(dx2, s3).
     bindE (getNumber ''c command control point 2 y'' tokens s3) (\<lambda>(dy2, s4).
     bindE (getNumber ''c command end x'' tokens s4) (\<lambda>(dx, s5).
     bindE (getNumber ''c command end y'' tokens s5) (\<lambda>(dy, s6).
       Inr (emitCubic curveSegments
              (currentX s6 + dx1) (currentY s6 + dy1) (currentX s6 + dx2) (currentY s6 + dy2)
              (currentX s6 + dx) (currentY s6 + dy) s6)))))))"

definition exec_S :: "real \<Rightarrow> Token list \<Rightarrow> Interp \<Rightarrow> error + Interp" where
  "exec_S curveSegments tokens s =
     bindE (getNumber ''S command control point 2 x'' tokens s) (\<lambda>(x2, s1).
     bindE (getNumber ''S command control point 2 y'' tokens s1) (\<lambda>(y2, s2).
     bindE (getNumber ''S command end x'' tokens s2) (\<lambda>(vx, s3).
     bindE (getNumber ''S command end y'' tokens s3) (\<lambda>(vy, s4).
       Inr (emitCubic curveSegments
              (reflectX (afterCubic (lastCommand s4)) s4) (reflectY (afterCubic (lastCommand s4)) s4)
              x2 y2 vx vy s4)))))"

definition exec_s :: "real \<Rightarrow> Token list \<Rightarrow> Interp \<Rightarrow> error + Interp" where
  "exec_s curveSegments tokens s =
     bindE (getNumber ''s command control point 2 x'' tokens s) (\<lambda>(dx2, s1).
     bindE (getNumber ''s command control point 2 y'' tokens s1) (\<lambda>(dy2, s2).
     bindE (getNumber ''s command end x'' tokens s2) (\<lambda>(dx, s3).
     bindE (getNumber ''s command end y'' tokens s3) (\<lambda>(dy, s4).
       Inr (emitCubic curveSegments
              (reflectX (afterCubic (lastCommand s4)) s4) (reflectY (afterCubic (lastCommand s4)) s4)
              (currentX s4 + dx2) (currentY s4 + dy2) (currentX s4 + dx) (currentY s4 + dy) s4)))))"

definition exec_Q :: "real \<Rightarrow> Token list \<Rightarrow> Interp \<Rightarrow> error + Interp" where
  "exec_Q curveSegments tokens s =
     bindE (getNumber ''Q command control point x'' tokens s) (\<lambda>(x1, s1).
     bindE (getNumber ''Q command control point y'' tokens s1) (\<lambda>(y1, s2).
     bindE (getNumber ''Q command end x'' tokens s2) (\<lambda>(vx, s3).
     bindE (getNumber ''Q command end y'' tokens s3) (\<lambda>(vy, s4).
       Inr (emitQuadratic curveSegments x1 y1 vx vy s4)))))"

definition exec_q :: "real \<Rightarrow> Token list \<Rightarrow> Interp \<Rightarrow> error + Interp" where
  "exec_q curveSegments tokens s =
     bindE (getNumber ''q command control point x'' tokens s) (\<lambda>(dx1, s1).
     bindE (getNumber ''q command control point y'' tokens s1) (\<lambda>(dy1, s2).
     bindE (getNumber ''q command end x'' tokens s2) (\<lambda>(dx, s3).
     bindE (getNumber ''q command end y'' tokens s3) (\<lambda>(dy, s4).
       Inr (emitQuadratic curveSegments
              (currentX s4 + dx1) (currentY s4 + dy1) (currentX s4 + dx) (currentY s4 + dy) s4)))))"

definition exec_T :: "real \<Rightarrow> Token list \<Rightarrow> Interp \<Rightarrow> error + Interp" where
  "exec_T curveSegments tokens s =
     bindE (getNumber ''T command end x'' tokens s) (\<lambda>(vx, s1).
     bindE (getNumber ''T command end y'' tokens s1) (\<lambda>(vy, s2).
       Inr (emitQuadratic curveSegments
              (reflectX (afterQuadratic (lastCommand s2)) s2)
              (reflectY (afterQuadratic (lastCommand s2)) s2) vx vy s2)))"

definition exec_t :: "real \<Rightarrow> Token list \<Rightarrow> Interp \<Rightarrow> error + Interp" where
  "exec_t curveSegments tokens s =
     bindE (getNumber ''t command end x'' tokens s) (\<lambda>(dx, s1).
     bindE (getNumber ''t command end y'' tokens s1) (\<lambda>(dy, s2).
       Inr (emitQuadratic curveSegments
              (reflectX (afterQuadratic (lastCommand s2)) s2)
              (reflectY (afterQuadratic (lastCommand s2)) s2)
              (currentX s2 + dx) (currentY s2 + dy) s2)))"

definition exec_A :: "real \<Rightarrow> Token list \<Rightarrow> Interp \<Rightarrow> error + Interp" where
  "exec_A arcSegments tokens s =
     bindE (getNumber ''A command rx'' tokens s) (\<lambda>(rx, s1).
     bindE (getNumber ''A command ry'' tokens s1) (\<lambda>(ry, s2).
     bindE (getNumber ''A command x-axis-rotation'' tokens s2) (\<lambda>(xAxisRotation, s3).
     bindE (getNumber ''A command large-arc-flag'' tokens s3) (\<lambda>(largeArcFlag, s4).
     bindE (getNumber ''A command sweep-flag'' tokens s4) (\<lambda>(sweepFlag, s5).
     bindE (getNumber ''A command end x'' tokens s5) (\<lambda>(vx, s6).
     bindE (getNumber ''A command end y'' tokens s6) (\<lambda>(vy, s7).
       Inr (emitArc arcSegments rx ry xAxisRotation largeArcFlag sweepFlag vx vy s7))))))))"

definition exec_a :: "real \<Rightarrow> Token list \<Rightarrow> Interp \<Rightarrow> error + Interp" where
  "exec_a arcSegments tokens s =
     bindE (getNumber ''a command rx'' tokens s) (\<lambda>(rx, s1).
     bindE (getNumber ''a command ry'' tokens s1) (\<lambda>(ry, s2).
     bindE (getNumber ''a command x-axis-rotation'' tokens s2) (\<lambda>(xAxisRotation, s3).
     bindE (getNumber ''a command large-arc-flag'' tokens s3) (\<lambda>(largeArcFlag, s4).
     bindE (getNumber ''a command sweep-flag'' tokens s4) (\<lambda>(sweepFlag, s5).
     bindE (getNumber ''a command end x'' tokens s5) (\<lambda>(dx, s6).
     bindE (getNumber ''a command end y'' tokens s6) (\<lambda>(dy, s7).
       Inr (emitArc arcSegments rx ry xAxisRotation largeArcFlag sweepFlag
              (currentX s7 + dx) (currentY s7 + dy) s7))))))))"

definition exec_Z :: "Interp \<Rightarrow> error + Interp" where
  \<comment> \<open>the shared case of \<open>Z\<close> and \<open>z\<close>\<close>
  "exec_Z s =
     (if currentX s \<noteq> subpathStartX s \<or> currentY s \<noteq> subpathStartY s then
        Inr (s\<lparr>absolutePoints := absolutePoints s @ [(subpathStartX s, subpathStartY s)],
               currentX := subpathStartX s, currentY := subpathStartY s\<rparr>)
      else Inr s)"

definition execCommand :: "real \<Rightarrow> real \<Rightarrow> Token list \<Rightarrow> char \<Rightarrow> bool \<Rightarrow> Interp \<Rightarrow> error + Interp" where
  \<comment> \<open>the \<open>switch\<close> statement: one pass of the body of the \<open>do\<close> loop\<close>
  "execCommand curveSegments arcSegments tokens command isFirstCoordSet s =
     (if command = CHR ''M'' then exec_M tokens isFirstCoordSet s
      else if command = CHR ''m'' then exec_m tokens isFirstCoordSet s
      else if command = CHR ''L'' then exec_L tokens s
      else if command = CHR ''l'' then exec_l tokens s
      else if command = CHR ''H'' then exec_H tokens s
      else if command = CHR ''h'' then exec_h tokens s
      else if command = CHR ''V'' then exec_V tokens s
      else if command = CHR ''v'' then exec_v tokens s
      else if command = CHR ''C'' then exec_C curveSegments tokens s
      else if command = CHR ''c'' then exec_c curveSegments tokens s
      else if command = CHR ''S'' then exec_S curveSegments tokens s
      else if command = CHR ''s'' then exec_s curveSegments tokens s
      else if command = CHR ''Q'' then exec_Q curveSegments tokens s
      else if command = CHR ''q'' then exec_q curveSegments tokens s
      else if command = CHR ''T'' then exec_T curveSegments tokens s
      else if command = CHR ''t'' then exec_t curveSegments tokens s
      else if command = CHR ''A'' then exec_A arcSegments tokens s
      else if command = CHR ''a'' then exec_a arcSegments tokens s
      else if command = CHR ''Z'' \<or> command = CHR ''z'' then exec_Z s
      else Inl (''Unsupported command: '' @ [command]))"

definition repeats :: "Token list \<Rightarrow> char \<Rightarrow> bool \<Rightarrow> Interp \<Rightarrow> bool" where
  \<comment> \<open>The two tests at the end of the body of the \<open>do\<close> loop: whether a \<open>continue\<close> is
      reached. Both \<open>continue\<close> statements start the next pass of the same loop.\<close>
  "repeats tokens command isFirstCoordSet s \<longleftrightarrow>
     ((command = CHR ''M'' \<or> command = CHR ''m'') \<and> \<not> isFirstCoordSet)
     \<or> (idx s < length tokens \<and> isNumberToken (tokens ! idx s))"

text \<open>
  The \<open>do ... while (true)\<close> loop of one command. After the \<open>switch\<close> the source assigns
  \<open>lastCommand = command\<close> and \<open>isFirstCoordSet = false\<close>, and only then tests
  \<open>!isFirstCoordSet\<close>, so the test sees \<open>False\<close>.
\<close>

partial_function (option) doLoop ::
  "real \<Rightarrow> real \<Rightarrow> Token list \<Rightarrow> char \<Rightarrow> bool \<Rightarrow> Interp \<Rightarrow> (error + Interp) option" where
  "doLoop curveSegments arcSegments tokens command isFirstCoordSet s =
     (case execCommand curveSegments arcSegments tokens command isFirstCoordSet s of
        Inl e \<Rightarrow> Some (Inl e)
      | Inr s' \<Rightarrow>
          if repeats tokens command False (s'\<lparr>lastCommand := [command]\<rparr>) then
            doLoop curveSegments arcSegments tokens command False (s'\<lparr>lastCommand := [command]\<rparr>)
          else Some (Inr (s'\<lparr>lastCommand := [command]\<rparr>)))"

text \<open>The outer \<open>while (i < tokens.length)\<close> loop.\<close>

partial_function (option) whileLoop ::
  "real \<Rightarrow> real \<Rightarrow> Token list \<Rightarrow> Interp \<Rightarrow> (error + Interp) option" where
  "whileLoop curveSegments arcSegments tokens s =
     (if idx s < length tokens then
        (case tokens ! idx s of
           Number v \<Rightarrow> Some (Inl (''Expected command, got number at token '' @ showNat (idx s)))
         | Command command \<Rightarrow>
             Option.bind (doLoop curveSegments arcSegments tokens command True (s\<lparr>idx := idx s + 1\<rparr>))
               (\<lambda>r. case r of
                      Inl e \<Rightarrow> Some (Inl e)
                    | Inr s' \<Rightarrow> whileLoop curveSegments arcSegments tokens s'))
      else Some (Inr s))"

subsection \<open>Normalisation and the two entry points\<close>

record PolygonConversionOptions =
  curveSegments :: "real option"
  arcSegments :: "real option"

definition defaultOptions :: PolygonConversionOptions where
  \<comment> \<open>the default argument \<open>{}\<close>\<close>
  "defaultOptions = \<lparr>curveSegments = None, arcSegments = None\<rparr>"

definition orDefault :: "real option \<Rightarrow> real \<Rightarrow> real" where
  \<comment> \<open>the operator \<open>??\<close>\<close>
  "orDefault v d = (case v of None \<Rightarrow> d | Some a \<Rightarrow> a)"

definition extractAbsolutePoints :: "string \<Rightarrow> PolygonConversionOptions \<Rightarrow> (error + Point list) option" where
  \<comment> \<open>\<open>extractPointsFromPath\<close> up to the test that some point was produced\<close>
  "extractAbsolutePoints path options =
     (case tokenizePath path of
        Inl e \<Rightarrow> Some (Inl e)
      | Inr tokens \<Rightarrow>
          Option.bind
            (whileLoop (orDefault (curveSegments options) 8) (orDefault (arcSegments options) 16)
               tokens initialInterp)
            (\<lambda>r. case r of
                   Inl e \<Rightarrow> Some (Inl e)
                 | Inr s \<Rightarrow>
                     if length (absolutePoints s) = 0 then Some (Inl ''No points extracted from path'')
                     else Some (Inr (absolutePoints s))))"

definition minOf :: "real list \<Rightarrow> real" where
  \<comment> \<open>\<open>Math.min\<close> folded over a non-empty list; the first element stands for the start
      value \<open>Infinity\<close>\<close>
  "minOf vs = fold min (tl vs) (hd vs)"

definition maxOf :: "real list \<Rightarrow> real" where
  "maxOf vs = fold max (tl vs) (hd vs)"

definition mathRound :: "real \<Rightarrow> real" where
  \<comment> \<open>\<open>Math.round\<close>: halves go up\<close>
  "mathRound v = of_int \<lfloor>v + 1 / 2\<rfloor>"

definition normalizeCoord :: "real \<Rightarrow> real \<Rightarrow> real \<Rightarrow> real" where
  \<comment> \<open>one coordinate of a normalised point, in exact arithmetic; in the source an extent
      \<open>Infinity\<close> passes the test \<open>width > 0\<close> and the quotient can be \<open>NaN\<close>\<close>
  "normalizeCoord lo extent v =
     mathRound ((if 0 < extent then ((v - lo) / extent) * 100 else 50) * 100) / 100"

definition normalizePoints :: "Point list \<Rightarrow> Point list" where
  \<comment> \<open>bounding box and normalisation, in exact arithmetic: the extents cannot overflow\<close>
  "normalizePoints points =
     (let minX = minOf (map fst points); minY = minOf (map snd points);
          maxX = maxOf (map fst points); maxY = maxOf (map snd points);
          width = maxX - minX; height = maxY - minY
      in map (\<lambda>point. (normalizeCoord minX width (fst point), normalizeCoord minY height (snd point)))
           points)"

definition extractPointsFromPath :: "string \<Rightarrow> PolygonConversionOptions \<Rightarrow> (error + Point list) option" where
  "extractPointsFromPath path options =
     map_option (map_sum id normalizePoints) (extractAbsolutePoints path options)"

definition numberText :: "real \<Rightarrow> string" where
  \<comment> \<open>The text of a number in a template literal, for a number with at most two decimals,
      as every normalised coordinate is.\<close>
  "numberText v =
     (let a = \<bar>v\<bar>;
          whole = nat \<lfloor>a\<rfloor>;
          cents = nat \<lfloor>(a - real whole) * 100 + 1 / 2\<rfloor>
      in (if v < 0 then ''-'' else []) @ showNat whole @
         (if cents = 0 then []
          else if cents mod 10 = 0 then ''.'' @ showNat (cents div 10)
          else ''.'' @ showNat (cents div 10) @ showNat (cents mod 10)))"

definition pointText :: "Point \<Rightarrow> string" where
  "pointText point = numberText (fst point) @ ''% '' @ numberText (snd point) @ ''%''"

fun joinWith :: "string \<Rightarrow> string list \<Rightarrow> string" where
  "joinWith sep [] = []"
| "joinWith sep [a] = a"
| "joinWith sep (a # b # rest) = a @ sep @ joinWith sep (b # rest)"

definition convertSvgPathToPolygon :: "string \<Rightarrow> PolygonConversionOptions \<Rightarrow> (error + string) option" where
  "convertSvgPathToPolygon svgPath options =
     (if svgPath = [] \<or> trim svgPath = [] then Some (Inl ''SVG path cannot be empty'')
      else if \<not> isValidSvgPath (trim svgPath) then Some (Inl ''Invalid SVG path format'')
      else
        Option.bind (extractPointsFromPath (trim svgPath) options)
          (\<lambda>r. case r of
                 Inl e \<Rightarrow> Some (Inl (''Failed to convert path to polygon: '' @ e))
               | Inr points \<Rightarrow>
                   if length points < 3 then
                     Some (Inl (''Failed to convert path to polygon: '' @
                                ''Path must contain at least 3 points to create a polygon''))
                   else
                     Some (Inr (''clip-path: polygon('' @ joinWith '', '' (map pointText points) @ '');''))))"

section \<open>Properties\<close>

subsection \<open>Helper facts on strings\<close>

lemma dropWhile_keeps: "c \<in> set xs \<Longrightarrow> \<not> P c \<Longrightarrow> c \<in> set (dropWhile P xs)"
  by (induction xs) auto

lemma trim_keeps: "c \<in> set s \<Longrightarrow> \<not> isWhiteSpace c \<Longrightarrow> c \<in> set (trim s)"
  by (simp add: trim_def dropWhile_keeps)

lemma set_trim_subset: "set (trim s) \<subseteq> set s"
proof
  fix c assume "c \<in> set (trim s)"
  then have "c \<in> set (dropWhile isWhiteSpace (rev (dropWhile isWhiteSpace s)))"
    by (simp add: trim_def)
  then have "c \<in> set (rev (dropWhile isWhiteSpace s))" by (rule set_dropWhileD)
  then have "c \<in> set (dropWhile isWhiteSpace s)" by simp
  then show "c \<in> set s" by (rule set_dropWhileD)
qed

lemma trim_Nil_iff: "trim s = [] \<longleftrightarrow> (\<forall>c \<in> set s. isWhiteSpace c)"
proof
  assume "trim s = []"
  then show "\<forall>c \<in> set s. isWhiteSpace c"
    using trim_keeps [of _ s] by fastforce
next
  assume "\<forall>c \<in> set s. isWhiteSpace c"
  then have d: "dropWhile isWhiteSpace s = []" using dropWhile_eq_Nil_conv by blast
  show "trim s = []" unfolding trim_def d by simp
qed

lemma commandLetter_not_white: "isCommandLetter c \<Longrightarrow> \<not> isWhiteSpace c"
  by (auto simp: isCommandLetter_def isWhiteSpace_def)

lemma isValidSvgPath_trim: "isValidSvgPath (trim s) \<longleftrightarrow> isValidSvgPath s"
  unfolding isValidSvgPath_def
  using trim_keeps commandLetter_not_white set_trim_subset by blast

lemmas interp_defs =
  execCommand_def exec_M_def exec_m_def exec_L_def exec_l_def exec_H_def exec_h_def exec_V_def
  exec_v_def exec_Z_def bindE_def getNumber_def repeats_def pushCurrent_def markSubpathStart_def
  initialInterp_def

lemmas convert_defs =
  convertSvgPathToPolygon_def extractPointsFromPath_def extractAbsolutePoints_def
  defaultOptions_def orDefault_def

subsection \<open>The path() output\<close>

text \<open>
  C4: when the trimmed input contains a command letter, \<open>convertSvgPathToClipPath\<close>
  succeeds and returns \<open>clip-path: path('...');\<close> around the trimmed input, unchanged.
  It fails for an empty or white-space-only input, and for an input without a command letter.
\<close>

theorem clip_path_passthrough:
  "((\<exists>c \<in> set (trim svgPath). isCommandLetter c) \<longrightarrow>
      convertSvgPathToClipPath svgPath =
        Inr (''clip-path: path('' @ [CHR 0x27] @ trim svgPath @ [CHR 0x27] @ '');''))
   \<and> ((\<forall>c \<in> set svgPath. isWhiteSpace c) \<longrightarrow>
      convertSvgPathToClipPath svgPath = Inl ''SVG path cannot be empty'')
   \<and> ((\<forall>c \<in> set svgPath. \<not> isCommandLetter c) \<longrightarrow>
      (\<exists>e. convertSvgPathToClipPath svgPath = Inl e))"
proof (intro conjI impI)
  assume h: "\<exists>c \<in> set (trim svgPath). isCommandLetter c"
  then have "trim svgPath \<noteq> []" by auto
  moreover from this have "svgPath \<noteq> []" by (auto simp: trim_def)
  ultimately show "convertSvgPathToClipPath svgPath =
        Inr (''clip-path: path('' @ [CHR 0x27] @ trim svgPath @ [CHR 0x27] @ '');'')"
    using h by (simp add: convertSvgPathToClipPath_def isValidSvgPath_def)
next
  assume "\<forall>c \<in> set svgPath. isWhiteSpace c"
  then have "trim svgPath = []" by (simp add: trim_Nil_iff)
  then show "convertSvgPathToClipPath svgPath = Inl ''SVG path cannot be empty''"
    by (simp add: convertSvgPathToClipPath_def)
next
  assume "\<forall>c \<in> set svgPath. \<not> isCommandLetter c"
  then have "\<not> isValidSvgPath svgPath"
    by (simp add: isValidSvgPath_def)
  then have "\<not> isValidSvgPath (trim svgPath)"
    using isValidSvgPath_trim by blast
  then show "\<exists>e. convertSvgPathToClipPath svgPath = Inl e"
    by (simp add: convertSvgPathToClipPath_def)
qed

theorem clip_path_passthrough_witness:
  "CHR ''M'' \<in> set (trim ''  M0 0L5 5Z '') \<and> isCommandLetter CHR ''M''
   \<and> convertSvgPathToClipPath ''  M0 0L5 5Z '' =
       Inr (''clip-path: path('' @ [CHR 0x27] @ ''M0 0L5 5Z'' @ [CHR 0x27] @ '');'')
   \<and> convertSvgPathToClipPath ''   '' = Inl ''SVG path cannot be empty''
   \<and> convertSvgPathToClipPath [] = Inl ''SVG path cannot be empty''
   \<and> (\<exists>e. convertSvgPathToClipPath '' 10 20 '' = Inl e)"
proof -
  have t: "trim ''  M0 0L5 5Z '' = ''M0 0L5 5Z''" by code_simp
  have m: "isCommandLetter CHR ''M''" by code_simp
  have 1: "\<exists>c \<in> set (trim ''  M0 0L5 5Z ''). isCommandLetter c"
    using m by (simp add: t)
  have 2: "\<forall>c \<in> set ''   ''. isWhiteSpace c" by (simp add: isWhiteSpace_def)
  have 3: "\<forall>c \<in> set []. isWhiteSpace c" by simp
  have 4: "\<forall>c \<in> set '' 10 20 ''. \<not> isCommandLetter c" by (simp add: isCommandLetter_def)
  show ?thesis
    using clip_path_passthrough [of "''  M0 0L5 5Z ''"] clip_path_passthrough [of "''   ''"]
      clip_path_passthrough [of "[]"] clip_path_passthrough [of "'' 10 20 ''"] 1 2 3 4 m
    by (simp add: t)
qed

subsection \<open>The tokenizer on number formats\<close>

text \<open>
  C5: the tokenizer reads \<open>-.5e-3\<close> as the single number \<open>-0.0005\<close>, reads \<open>1.\<close> as the
  number \<open>1.0\<close>, and fails on \<open>.\<close> alone, with the message of a malformed number.
\<close>

theorem tokenize_number_formats:
  "tokenizePath ''-.5e-3'' = Inr [Number (- 0.0005)]
   \<and> tokenizePath ''1.'' = Inr [Number 1.0]
   \<and> tokenizePath ''.'' = Inl (''Invalid number format: '' @ quoted ''.'')"
  by code_simp

subsection \<open>Degenerate arcs\<close>

text \<open>
  C9: an arc with \<open>rx = 0\<close> or \<open>ry = 0\<close> is flattened to exactly one point, the end point
  of the arc. The flattener returns a list, so no error is raised.
\<close>

theorem arc_degenerate_radius:
  "rx = 0 \<or> ry = 0 \<Longrightarrow>
     approximateArc x1 y1 rx ry xAxisRotation largeArcFlag sweepFlag x2 y2 segments = [(x2, y2)]"
  by (simp add: approximateArc_def)

theorem arc_degenerate_radius_witness:
  "((0::real) = 0 \<or> (5::real) = 0) \<and> approximateArc 1 2 0 5 30 False True 7 8 16 = [(7, 8)]"
  using arc_degenerate_radius [of 0 5 1 2 30 False True 7 8 16] by simp

subsection \<open>Closing a subpath\<close>

lemma exec_close:
  "command = CHR ''Z'' \<or> command = CHR ''z'' \<Longrightarrow>
   execCommand cs as tokens command isFirstCoordSet s =
     Inr (if currentX s = subpathStartX s \<and> currentY s = subpathStartY s then s
          else s\<lparr>absolutePoints := absolutePoints s @ [(subpathStartX s, subpathStartY s)],
                 currentX := subpathStartX s, currentY := subpathStartY s\<rparr>)"
proof (erule disjE)
  assume "command = CHR ''Z''"
  then show ?thesis by (simp add: execCommand_def exec_Z_def)
next
  assume "command = CHR ''z''"
  then show ?thesis by (simp add: execCommand_def exec_Z_def)
qed

text \<open>
  C8: one execution of \<open>Z\<close> or \<open>z\<close> never fails and never changes the subpath start. When
  the cursor is at the subpath start it appends no point and leaves the cursor; otherwise it
  appends exactly one point, the subpath start, and moves the cursor there.
\<close>

theorem close_path_step:
  "command = CHR ''Z'' \<or> command = CHR ''z'' \<Longrightarrow>
   \<exists>s'. execCommand cs as tokens command isFirstCoordSet s = Inr s'
     \<and> subpathStartX s' = subpathStartX s \<and> subpathStartY s' = subpathStartY s
     \<and> (if currentX s = subpathStartX s \<and> currentY s = subpathStartY s
        then absolutePoints s' = absolutePoints s
           \<and> currentX s' = currentX s \<and> currentY s' = currentY s
        else absolutePoints s' = absolutePoints s @ [(subpathStartX s, subpathStartY s)]
           \<and> currentX s' = subpathStartX s \<and> currentY s' = subpathStartY s)"
  by (simp add: exec_close)

theorem close_path_step_witness:
  "(CHR ''Z'' = CHR ''Z'' \<or> CHR ''Z'' = CHR ''z'')
   \<and> (\<exists>s'. execCommand 8 16 [] CHR ''Z'' True (initialInterp\<lparr>currentX := 3\<rparr>) = Inr s'
        \<and> subpathStartX s' = 0 \<and> subpathStartY s' = 0
        \<and> absolutePoints s' = [(0, 0)] \<and> currentX s' = 0 \<and> currentY s' = 0)"
  using close_path_step [of "CHR ''Z''" 8 16 "[]" True "initialInterp\<lparr>currentX := 3\<rparr>"]
  by (simp add: initialInterp_def)

subsection \<open>Paths that start with a move\<close>

text \<open>
  C1: on the square \<open>M 10 10 L 90 10 L 90 90 L 10 90 Z\<close> with default options the
  conversion does not return the polygon of the four corners. After the first coordinate
  pair of \<open>M\<close> the loop runs the case \<open>M\<close> again, which finds the command \<open>L\<close> where it
  expects a number, and the call fails.
\<close>

theorem square_path_is_rejected:
  "convertSvgPathToPolygon ''M 10 10 L 90 10 L 90 90 L 10 90 Z'' defaultOptions =
     Some (Inl ''Failed to convert path to polygon: Expected number for M command x-coordinate'')"
proof -
  have t: "trim ''M 10 10 L 90 10 L 90 90 L 10 90 Z'' = ''M 10 10 L 90 10 L 90 90 L 10 90 Z''"
    by code_simp
  have v: "isValidSvgPath ''M 10 10 L 90 10 L 90 90 L 10 90 Z''"
    by code_simp
  have k: "tokenizePath ''M 10 10 L 90 10 L 90 90 L 10 90 Z'' =
      Inr [Command CHR ''M'', Number 10, Number 10, Command CHR ''L'', Number 90, Number 10,
           Command CHR ''L'', Number 90, Number 90, Command CHR ''L'', Number 10, Number 90,
           Command CHR ''Z'']"
    by code_simp
  show ?thesis
    by (simp add: convert_defs t v k whileLoop.simps doLoop.simps interp_defs)
qed

text \<open>
  C3: on \<open>M10,10Z\<close> the conversion fails in the interpreter, with the message of a missing
  operand of \<open>M\<close>, and not with the message of a polygon with fewer than three points.
\<close>

theorem single_point_path_error:
  "convertSvgPathToPolygon ''M10,10Z'' defaultOptions =
     Some (Inl ''Failed to convert path to polygon: Expected number for M command x-coordinate'')"
proof -
  have t: "trim ''M10,10Z'' = ''M10,10Z''"
    by code_simp
  have v: "isValidSvgPath ''M10,10Z''"
    by code_simp
  have k: "tokenizePath ''M10,10Z'' = Inr [Command CHR ''M'', Number 10, Number 10, Command CHR ''Z'']"
    by code_simp
  show ?thesis
    by (simp add: convert_defs t v k whileLoop.simps doLoop.simps interp_defs)
qed

subsection \<open>Messages of tokenizer failures\<close>









subsection \<open>Normalisation to percentages in exact arithmetic\<close>

lemma minOf_Min: "vs \<noteq> [] \<Longrightarrow> minOf vs = Min (set vs)"
proof (cases vs)
  case (Cons a list)
  then show ?thesis using Min.set_eq_fold [of a list] by (simp add: minOf_def)
qed simp

lemma maxOf_Max: "vs \<noteq> [] \<Longrightarrow> maxOf vs = Max (set vs)"
proof (cases vs)
  case (Cons a list)
  then show ?thesis using Max.set_eq_fold [of a list] by (simp add: maxOf_def)
qed simp

lemma mathRound_of_int: "mathRound (of_int n) = of_int n"
proof -
  have "\<lfloor>(of_int n :: real) + 1 / 2\<rfloor> = n" by linarith
  then show ?thesis by (simp add: mathRound_def)
qed

lemma normalizeCoord_flat: "\<not> 0 < extent \<Longrightarrow> normalizeCoord lo extent v = 50"
proof -
  have "mathRound 5000 = 5000" using mathRound_of_int [of 5000] by simp
  then show "\<not> 0 < extent \<Longrightarrow> normalizeCoord lo extent v = 50"
    by (simp add: normalizeCoord_def)
qed

lemma normalizeCoord_lo: "0 < extent \<Longrightarrow> normalizeCoord lo extent lo = 0"
  using mathRound_of_int [of 0] by (simp add: normalizeCoord_def)

lemma normalizeCoord_hi: "0 < hi - lo \<Longrightarrow> normalizeCoord lo (hi - lo) hi = 100"
  using mathRound_of_int [of 10000] by (simp add: normalizeCoord_def)

lemma normalizeCoord_range:
  assumes "0 < extent" "lo \<le> v" "v \<le> lo + extent"
  shows "0 \<le> normalizeCoord lo extent v \<and> normalizeCoord lo extent v \<le> 100"
proof -
  define q where "q = (v - lo) / extent"
  define w where "w = q * 100 * 100"
  have "0 \<le> q" using assms by (simp add: q_def)
  moreover have "q \<le> 1" using assms by (simp add: q_def)
  ultimately have w: "0 \<le> w" "w \<le> 10000" by (simp_all add: w_def)
  have "0 \<le> \<lfloor>w + 1 / 2\<rfloor>" using w(1) by linarith
  moreover have "\<lfloor>w + 1 / 2\<rfloor> \<le> 10000" using w(2) by linarith
  ultimately have "0 \<le> mathRound w" "mathRound w \<le> 10000"
    by (simp_all add: mathRound_def)
  then show ?thesis using assms(1) by (simp add: normalizeCoord_def w_def q_def)
qed

lemma normalize_axis:
  fixes vs :: "real list"
  assumes "vs \<noteq> []"
  defines "lo \<equiv> Min (set vs)" and "hi \<equiv> Max (set vs)"
  defines "ns \<equiv> map (normalizeCoord (minOf vs) (maxOf vs - minOf vs)) vs"
  shows "(lo < hi \<longrightarrow>
            (\<forall>k<length vs. (vs ! k = lo \<longrightarrow> ns ! k = 0) \<and> (vs ! k = hi \<longrightarrow> ns ! k = 100)
                          \<and> 0 \<le> ns ! k \<and> ns ! k \<le> 100)
            \<and> Min (set ns) = 0 \<and> Max (set ns) = 100)
       \<and> (lo = hi \<longrightarrow> (\<forall>n \<in> set ns. n = 50))"
proof (intro conjI impI)
  have mm: "minOf vs = lo" "maxOf vs = hi"
    using assms(1) by (simp_all add: minOf_Min maxOf_Max lo_def hi_def)
  have bounds: "lo \<le> v \<and> v \<le> hi" if "v \<in> set vs" for v
    using that by (simp add: lo_def hi_def)
  have ne: "set vs \<noteq> {}" "finite (set vs)" using assms(1) by simp_all
  have lo_in: "lo \<in> set vs" unfolding lo_def using ne by (intro Min_in)
  have hi_in: "hi \<in> set vs" unfolding hi_def using ne by (intro Max_in)
  {
    assume lt: "lo < hi"
    have each: "(vs ! k = lo \<longrightarrow> ns ! k = 0) \<and> (vs ! k = hi \<longrightarrow> ns ! k = 100)
                          \<and> 0 \<le> ns ! k \<and> ns ! k \<le> 100" if "k < length vs" for k
    proof -
      have nk: "ns ! k = normalizeCoord lo (hi - lo) (vs ! k)"
        using that by (simp add: ns_def mm)
      have "vs ! k \<in> set vs" using that by simp
      then have b: "lo \<le> vs ! k" "vs ! k \<le> lo + (hi - lo)" using bounds by auto
      show ?thesis
        using lt normalizeCoord_lo [of "hi - lo" lo] normalizeCoord_hi [of hi lo]
          normalizeCoord_range [OF _ b, of ] by (auto simp: nk)
    qed
    then show "\<forall>k<length vs. (vs ! k = lo \<longrightarrow> ns ! k = 0) \<and> (vs ! k = hi \<longrightarrow> ns ! k = 100)
                          \<and> 0 \<le> ns ! k \<and> ns ! k \<le> 100"
      by blast
    have len: "length ns = length vs" by (simp add: ns_def)
    have nne: "set ns \<noteq> {}" "finite (set ns)" using assms(1) by (simp_all add: ns_def)
    have all: "0 \<le> n \<and> n \<le> 100" if "n \<in> set ns" for n
      using that each len by (metis in_set_conv_nth)
    obtain a where a: "a < length vs" "vs ! a = lo" using lo_in by (metis in_set_conv_nth)
    obtain b where b: "b < length vs" "vs ! b = hi" using hi_in by (metis in_set_conv_nth)
    have "ns ! a = 0" using each [OF a(1)] a(2) by simp
    then have zero_in: "0 \<in> set ns" using a(1) len by (metis nth_mem)
    have "ns ! b = 100" using each [OF b(1)] b(2) by simp
    then have hund_in: "100 \<in> set ns" using b(1) len by (metis nth_mem)
    show "Min (set ns) = 0"
      using zero_in all nne by (intro Min_eqI) auto
    show "Max (set ns) = 100"
      using hund_in all nne by (intro Max_eqI) auto
  }
  {
    assume "lo = hi"
    then show "\<forall>n \<in> set ns. n = 50"
      by (simp add: ns_def mm normalizeCoord_flat)
  }
qed


lemma map_fst_normalizePoints:
  "map fst (normalizePoints raw) =
     map (normalizeCoord (minOf (map fst raw)) (maxOf (map fst raw) - minOf (map fst raw))) (map fst raw)"
  by (simp add: normalizePoints_def Let_def comp_def)

lemma map_snd_normalizePoints:
  "map snd (normalizePoints raw) =
     map (normalizeCoord (minOf (map snd raw)) (maxOf (map snd raw) - minOf (map snd raw))) (map snd raw)"
  by (simp add: normalizePoints_def Let_def comp_def)

lemma extractPoints_Inr:
  assumes "extractPointsFromPath path options = Some (Inr points)"
  shows "\<exists>raw. extractAbsolutePoints path options = Some (Inr raw) \<and> raw \<noteq> []
           \<and> points = normalizePoints raw"
proof -
  obtain raw where a: "extractAbsolutePoints path options = Some (Inr raw)"
      and p: "points = normalizePoints raw"
    using assms unfolding extractPointsFromPath_def
    by (cases "extractAbsolutePoints path options")
       (auto simp: map_sum_def split: sum.splits)
  have "raw \<noteq> []"
    using a unfolding extractAbsolutePoints_def
    by (auto split: sum.splits if_splits Option.bind_splits)
  with a p show ?thesis by blast
qed


lemma normalize_axis_points:
  fixes sel :: "Point \<Rightarrow> real"
  assumes ne: "raw \<noteq> []"
    and m: "map sel points =
      map (normalizeCoord (minOf (map sel raw)) (maxOf (map sel raw) - minOf (map sel raw))) (map sel raw)"
  shows "(Min (sel ` set raw) < Max (sel ` set raw) \<longrightarrow>
          (\<forall>k<length raw.
              (sel (raw ! k) = Min (sel ` set raw) \<longrightarrow> sel (points ! k) = 0)
            \<and> (sel (raw ! k) = Max (sel ` set raw) \<longrightarrow> sel (points ! k) = 100)
            \<and> 0 \<le> sel (points ! k) \<and> sel (points ! k) \<le> 100)
          \<and> Min (sel ` set points) = 0 \<and> Max (sel ` set points) = 100)
     \<and> (Min (sel ` set raw) = Max (sel ` set raw) \<longrightarrow> (\<forall>p \<in> set points. sel p = 50))"
proof -
  define vs where "vs = map sel raw"
  define ns where "ns = map sel points"
  have vne: "vs \<noteq> []" using ne by (simp add: vs_def)
  have ns: "ns = map (normalizeCoord (minOf vs) (maxOf vs - minOf vs)) vs"
    using m by (simp add: vs_def ns_def)
  have len: "length points = length raw"
    using arg_cong [OF m, of length] by simp
  have sv: "set vs = sel ` set raw" and sn: "set ns = sel ` set points"
    by (simp_all add: vs_def ns_def)
  have nv: "vs ! k = sel (raw ! k)" and nn: "ns ! k = sel (points ! k)" if "k < length raw" for k
    using that len by (simp_all add: vs_def ns_def)
  have lv: "length vs = length raw" by (simp add: vs_def)
  note ax = normalize_axis [OF vne, folded ns]
  show ?thesis
  proof (intro conjI impI allI ballI)
    assume lt: "Min (sel ` set raw) < Max (sel ` set raw)"
    then have lt': "Min (set vs) < Max (set vs)" by (simp add: sv)
    from ax lt' have each: "\<forall>k<length vs. (vs ! k = Min (set vs) \<longrightarrow> ns ! k = 0)
        \<and> (vs ! k = Max (set vs) \<longrightarrow> ns ! k = 100) \<and> 0 \<le> ns ! k \<and> ns ! k \<le> 100"
      and mn: "Min (set ns) = 0" and mx: "Max (set ns) = 100"
      by blast+
    show "Min (sel ` set points) = 0" using mn by (simp add: sn)
    show "Max (sel ` set points) = 100" using mx by (simp add: sn)
    fix k assume k: "k < length raw"
    with each lv have e: "(vs ! k = Min (set vs) \<longrightarrow> ns ! k = 0)
        \<and> (vs ! k = Max (set vs) \<longrightarrow> ns ! k = 100) \<and> 0 \<le> ns ! k \<and> ns ! k \<le> 100"
      by simp
    from e show "sel (raw ! k) = Min (sel ` set raw) \<Longrightarrow> sel (points ! k) = 0"
      by (simp only: nv [OF k] nn [OF k] sv)
    from e show "sel (raw ! k) = Max (sel ` set raw) \<Longrightarrow> sel (points ! k) = 100"
      by (simp only: nv [OF k] nn [OF k] sv)
    from e show "0 \<le> sel (points ! k)" by (simp only: nn [OF k])
    from e show "sel (points ! k) \<le> 100" by (simp only: nn [OF k])
  next
    fix p assume eq: "Min (sel ` set raw) = Max (sel ` set raw)" and p: "p \<in> set points"
    from eq have "Min (set vs) = Max (set vs)" by (simp add: sv)
    with ax have "\<forall>n \<in> set ns. n = 50" by blast
    moreover have "sel p \<in> set ns" using p by (simp add: sn)
    ultimately show "sel p = 50" by blast
  qed
qed

text \<open>
  A fact of the embedding, whose numbers are exact reals: when \<open>extractPointsFromPath\<close>
  succeeds, the points it returns are the normalised images, in order, of a non-empty list
  \<open>raw\<close> of points in path space. On an axis where the bounding box of \<open>raw\<close> has positive
  extent, a point at the minimum maps to 0, a point at the maximum maps to 100, every
  coordinate lies in \<open>[0, 100]\<close>, and the least and greatest normalised coordinates are 0 and
  100. On an axis of extent zero every coordinate is 50. The fact says nothing about an input
  on which the source computes \<open>Infinity\<close> or \<open>NaN\<close>, such as \<open>L 0 0 L 1e400 0 L 5 5\<close>:
  there the source finds the width \<open>Infinity\<close> and prints \<open>NaN%\<close> for the largest coordinate.
\<close>

lemma normalized_bounding_box_exact:
  assumes "extractPointsFromPath path options = Some (Inr points)"
  shows "\<exists>raw. extractAbsolutePoints path options = Some (Inr raw) \<and> raw \<noteq> []
     \<and> length points = length raw
     \<and> (Min (fst ` set raw) < Max (fst ` set raw) \<longrightarrow>
          (\<forall>k<length raw.
              (fst (raw ! k) = Min (fst ` set raw) \<longrightarrow> fst (points ! k) = 0)
            \<and> (fst (raw ! k) = Max (fst ` set raw) \<longrightarrow> fst (points ! k) = 100)
            \<and> 0 \<le> fst (points ! k) \<and> fst (points ! k) \<le> 100)
          \<and> Min (fst ` set points) = 0 \<and> Max (fst ` set points) = 100)
     \<and> (Min (fst ` set raw) = Max (fst ` set raw) \<longrightarrow> (\<forall>p \<in> set points. fst p = 50))
     \<and> (Min (snd ` set raw) < Max (snd ` set raw) \<longrightarrow>
          (\<forall>k<length raw.
              (snd (raw ! k) = Min (snd ` set raw) \<longrightarrow> snd (points ! k) = 0)
            \<and> (snd (raw ! k) = Max (snd ` set raw) \<longrightarrow> snd (points ! k) = 100)
            \<and> 0 \<le> snd (points ! k) \<and> snd (points ! k) \<le> 100)
          \<and> Min (snd ` set points) = 0 \<and> Max (snd ` set points) = 100)
     \<and> (Min (snd ` set raw) = Max (snd ` set raw) \<longrightarrow> (\<forall>p \<in> set points. snd p = 50))"
proof -
  obtain raw where a: "extractAbsolutePoints path options = Some (Inr raw)" and ne: "raw \<noteq> []"
      and p: "points = normalizePoints raw"
    using extractPoints_Inr [OF assms] by blast
  have len: "length points = length raw" by (simp add: p normalizePoints_def Let_def)
  note X = normalize_axis_points [OF ne map_fst_normalizePoints [of raw, folded p]]
  note Y = normalize_axis_points [OF ne map_snd_normalizePoints [of raw, folded p]]
  from a ne len X Y show ?thesis by (intro exI [of _ raw] conjI) blast+
qed


lemma normalized_bounding_box_example:
  "extractPointsFromPath ''L 10 20 L 90 20 L 50 60'' defaultOptions =
      Some (Inr [(0, 0), (100, 0), (50, 100)])
   \<and> extractAbsolutePoints ''L 10 20 L 90 20 L 50 60'' defaultOptions =
      Some (Inr [(10, 20), (90, 20), (50, 60)])
   \<and> Min (fst ` set [(0, 0), (100, 0), (50, 100 :: real)]) = (0 :: real)
   \<and> Max (fst ` set [(0, 0), (100, 0), (50, 100 :: real)]) = (100 :: real)"
proof -
  have k: "tokenizePath ''L 10 20 L 90 20 L 50 60'' =
      Inr [Command CHR ''L'', Number 10, Number 20, Command CHR ''L'', Number 90, Number 20,
           Command CHR ''L'', Number 50, Number 60]"
    by code_simp
  have a: "extractAbsolutePoints ''L 10 20 L 90 20 L 50 60'' defaultOptions =
      Some (Inr [(10, 20), (90, 20), (50, 60)])"
    by (simp add: convert_defs k whileLoop.simps doLoop.simps interp_defs)
  have n: "normalizePoints [(10, 20), (90, 20), (50, 60)] = [(0, 0), (100, 0), (50, 100)]"
    by code_simp
  have h: "extractPointsFromPath ''L 10 20 L 90 20 L 50 60'' defaultOptions =
      Some (Inr [(0, 0), (100, 0), (50, 100)])"
    by (simp add: extractPointsFromPath_def a n)
  have lt: "Min (fst ` set [(10, 20), (90, 20), (50, 60 :: real)]) <
      (Max (fst ` set [(10, 20), (90, 20), (50, 60 :: real)]) :: real)"
    by simp
  from normalized_bounding_box_exact [OF h] a lt h show ?thesis
    by auto
qed

subsection \<open>The flatteners, and an arc after a move\<close>

lemma loopIndices_nat: "loopIndices (real N) = map real [1..<Suc N]"
  by (simp add: loopIndices_def)

lemma atan2_diag_neg: "0 < r \<Longrightarrow> a < 0 \<Longrightarrow> atan2 (a / r) (a / r) = pi / 4 - pi"
proof -
  assume r: "0 < r" and a: "a < 0"
  then have n: "a / r < 0" by (simp add: divide_neg_pos)
  then have "(a / r) / (a / r) = 1" using r a by simp
  then show ?thesis using n by (simp add: atan2_def arctan_one del: divide_self_if)
qed

lemma atan2_diag_pos: "0 < r \<Longrightarrow> 0 < a \<Longrightarrow> atan2 (a / r) (a / r) = pi / 4"
proof -
  assume r: "0 < r" and a: "0 < a"
  then have n: "0 < a / r" by simp
  then have "(a / r) / (a / r) = 1" using r a by simp
  then show ?thesis using n by (simp add: atan2_def arctan_one del: divide_self_if)
qed

lemma arc_example:
  "approximateArc 0 0 50 50 0 False True 100 100 (real N) =
     map (\<lambda>k. (50 * sqrt 2 * cos (pi / 4 - pi + (real k / real N) * pi) + 50,
                50 * sqrt 2 * sin (pi / 4 - pi + (real k / real N) * pi) + 50)) [1..<Suc N]"
proof -
  have s2: "sqrt 2 * sqrt 2 = 2" by simp
  have rr: "50 * sqrt 2 * (50 * sqrt 2) = 5000" using s2 by simp
  have t1: "atan2 (- (1 / sqrt 2)) (- (1 / sqrt 2)) = pi / 4 - pi"
    using atan2_diag_neg [of "sqrt 2" "- 1"] by simp
  have t2: "atan2 (1 / sqrt 2) (1 / sqrt 2) = pi / 4"
    using atan2_diag_pos [of "sqrt 2" 1] by simp
  have ang: "pi / 4 - pi + real k * (pi / 4 - (pi / 4 - pi)) / real N = pi / 4 - pi + (real k / real N) * pi"
    for k
    by simp
  show ?thesis
    unfolding approximateArc_def Let_def loopIndices_nat
    apply (simp add: rr comp_def t1 t2)
    done
qed


lemma arc_example_point:
  "(50 * sqrt 2 * cos (pi / 4 - pi + a) + 50, 50 * sqrt 2 * sin (pi / 4 - pi + a) + 50) =
   (50 * (sin a - cos a) + 50, 50 - 50 * (cos a + sin a))"
proof -
  have c: "cos (pi / 4 - pi) = - (sqrt 2 / 2)"
    using cos_diff [of "pi / 4" pi] by (simp add: cos_45)
  have s: "sin (pi / 4 - pi) = - (sqrt 2 / 2)"
    using sin_diff [of "pi / 4" pi] by (simp add: sin_45)
  have s2: "sqrt 2 * sqrt 2 = 2" by simp
  have s3: "sqrt 2 * (sqrt 2 * v) = 2 * v" for v :: real
    using s2 by (simp add: mult.assoc [symmetric])
  have "50 * sqrt 2 * cos (pi / 4 - pi + a) = 50 * (sin a - cos a)"
    unfolding cos_add c s by (simp add: algebra_simps s3)
  moreover have "50 * sqrt 2 * sin (pi / 4 - pi + a) = - (50 * (cos a + sin a))"
    unfolding sin_add c s by (simp add: algebra_simps s3)
  ultimately show ?thesis by simp
qed

lemma arc_example_last:
  assumes "0 < N"
  shows "last (approximateArc 0 0 50 50 0 False True 100 100 (real N)) = (100, 100)"
proof -
  have ne: "[1..<Suc N] \<noteq> []" using assms by simp
  have l: "last [1..<Suc N] = N" using assms by simp
  have one: "real N / real N = 1" using assms by simp
  show ?thesis
    unfolding arc_example arc_example_point
    by (simp only: last_map [OF ne] l one) simp
qed

lemma arc_example_not_start:
  "(0, 0) \<notin> set (approximateArc 0 0 50 50 0 False True 100 100 (real N))"
proof
  assume "(0, 0) \<in> set (approximateArc 0 0 50 50 0 False True 100 100 (real N))"
  then obtain k where k: "1 \<le> k" "k \<le> N"
      and z: "(0, 0) = (50 * (sin (real k / real N * pi) - cos (real k / real N * pi)) + 50,
                       50 - 50 * (cos (real k / real N * pi) + sin (real k / real N * pi)))"
    unfolding arc_example arc_example_point by auto
  define a where "a = real k / real N * pi"
  have pos: "0 < a" using k by (simp add: a_def)
  have "real k / real N \<le> 1" using k by simp
  then have le: "a \<le> pi"
    unfolding a_def using mult_right_mono [of "real k / real N" 1 pi] by simp
  from z have "sin a - cos a = - 1" "cos a + sin a = 1" by (simp_all add: a_def)
  then have "cos a = 1" by simp
  moreover have "cos a < cos 0" using pos le by (intro cos_monotone_0_pi) simp_all
  ultimately show False by simp
qed


text \<open>
  Each cubic command, given its operands, appends the points of the cubic curve from the old
  cursor at the parameters \<open>k / N\<close> for \<open>k = 1, ..., N\<close>, where \<open>N\<close> is the number of curve
  segments; the curve is written out as its Bernstein polynomial.
\<close>

lemma cubic_samples:
  "map (\<lambda>t. cubicBezier x0 y0 x1 y1 x2 y2 x3 y3 (t / real N)) (loopIndices (real N)) =
   map (\<lambda>k. ((1 - real k / real N) ^ 3 * x0 + 3 * (1 - real k / real N) ^ 2 * (real k / real N) * x1
               + 3 * (1 - real k / real N) * (real k / real N) ^ 2 * x2 + (real k / real N) ^ 3 * x3,
              (1 - real k / real N) ^ 3 * y0 + 3 * (1 - real k / real N) ^ 2 * (real k / real N) * y1
               + 3 * (1 - real k / real N) * (real k / real N) ^ 2 * y2 + (real k / real N) ^ 3 * y3))
     [1..<Suc N]"
  by (simp add: loopIndices_nat cubicBezier_def Let_def comp_def power2_eq_square power3_eq_cube)

lemma getNumber_at:
  "idx s < length tokens \<Longrightarrow> tokens ! idx s = Number v \<Longrightarrow>
   getNumber ctx tokens s = Inr (v, s\<lparr>idx := idx s + 1\<rparr>)"
  by (simp add: getNumber_def)

lemma getNumber_later:
  "idx s + k < length tokens \<Longrightarrow> tokens ! (idx s + k) = Number v \<Longrightarrow>
   getNumber ctx tokens (s\<lparr>idx := idx s + k\<rparr>) = Inr (v, s\<lparr>idx := idx s + (k + 1)\<rparr>)"
  by (simp add: getNumber_def)

lemma emitCubic_explicit:
  "emitCubic (real N) x1 y1 x2 y2 x3 y3 (s\<lparr>idx := j\<rparr>) =
     s\<lparr>absolutePoints := absolutePoints s @
           map (\<lambda>k. ((1 - real k / real N) ^ 3 * currentX s
                        + 3 * (1 - real k / real N) ^ 2 * (real k / real N) * x1
                        + 3 * (1 - real k / real N) * (real k / real N) ^ 2 * x2
                        + (real k / real N) ^ 3 * x3,
                      (1 - real k / real N) ^ 3 * currentY s
                        + 3 * (1 - real k / real N) ^ 2 * (real k / real N) * y1
                        + 3 * (1 - real k / real N) * (real k / real N) ^ 2 * y2
                        + (real k / real N) ^ 3 * y3))
             [1..<Suc N],
          lastControlX := x2, lastControlY := y2, currentX := x3, currentY := y3,
          idx := j\<rparr>"
  unfolding emitCubic_def cubic_samples by simp

lemma cubic_C_step:
  assumes "idx s + 6 \<le> length tokens"
    and "tokens ! idx s = Number x1" "tokens ! (idx s + 1) = Number y1"
    and "tokens ! (idx s + 2) = Number x2" "tokens ! (idx s + 3) = Number y2"
    and "tokens ! (idx s + 4) = Number x3" "tokens ! (idx s + 5) = Number y3"
  shows "execCommand (real N) as tokens CHR ''C'' isFirstCoordSet s =
    Inr (s\<lparr>absolutePoints := absolutePoints s @
           map (\<lambda>k. ((1 - real k / real N) ^ 3 * currentX s
                        + 3 * (1 - real k / real N) ^ 2 * (real k / real N) * x1
                        + 3 * (1 - real k / real N) * (real k / real N) ^ 2 * x2
                        + (real k / real N) ^ 3 * x3,
                      (1 - real k / real N) ^ 3 * currentY s
                        + 3 * (1 - real k / real N) ^ 2 * (real k / real N) * y1
                        + 3 * (1 - real k / real N) * (real k / real N) ^ 2 * y2
                        + (real k / real N) ^ 3 * y3))
             [1..<Suc N],
          lastControlX := x2, lastControlY := y2, currentX := x3, currentY := y3,
          idx := idx s + 6\<rparr>)"
proof -
  have g0: "getNumber ctx tokens s = Inr (x1, s\<lparr>idx := idx s + 1\<rparr>)" for ctx
    using assms by (simp add: getNumber_at)
  have g1: "getNumber ctx tokens (s\<lparr>idx := idx s + 1\<rparr>) = Inr (y1, s\<lparr>idx := idx s + 2\<rparr>)" for ctx
    using assms getNumber_later [of s 1 tokens y1 ctx] by simp
  have g2: "getNumber ctx tokens (s\<lparr>idx := idx s + 2\<rparr>) = Inr (x2, s\<lparr>idx := idx s + 3\<rparr>)" for ctx
    using assms getNumber_later [of s 2 tokens x2 ctx] by simp
  have g3: "getNumber ctx tokens (s\<lparr>idx := idx s + 3\<rparr>) = Inr (y2, s\<lparr>idx := idx s + 4\<rparr>)" for ctx
    using assms getNumber_later [of s 3 tokens y2 ctx] by simp
  have g4: "getNumber ctx tokens (s\<lparr>idx := idx s + 4\<rparr>) = Inr (x3, s\<lparr>idx := idx s + 5\<rparr>)" for ctx
    using assms getNumber_later [of s 4 tokens x3 ctx] by simp
  have g5: "getNumber ctx tokens (s\<lparr>idx := idx s + 5\<rparr>) = Inr (y3, s\<lparr>idx := idx s + 6\<rparr>)" for ctx
    using assms getNumber_later [of s 5 tokens y3 ctx] by simp
  have "exec_C (real N) tokens s = Inr (emitCubic (real N) x1 y1 x2 y2 x3 y3 (s\<lparr>idx := idx s + 6\<rparr>))"
    unfolding exec_C_def bindE_def
    by (simp only: g0 g1 g2 g3 g4 g5 sum.case prod.case)
  then show ?thesis
    unfolding emitCubic_explicit by (simp add: execCommand_def)
qed


lemma cubic_c_step:
  assumes "idx s + 6 \<le> length tokens"
    and "tokens ! idx s = Number dx1" "tokens ! (idx s + 1) = Number dy1" "tokens ! (idx s + 2) = Number dx2" "tokens ! (idx s + 3) = Number dy2" "tokens ! (idx s + 4) = Number dx" "tokens ! (idx s + 5) = Number dy"
  shows "execCommand (real N) as tokens CHR ''c'' isFirstCoordSet s =
    Inr (s\<lparr>absolutePoints := absolutePoints s @
           map (\<lambda>k. ((1 - real k / real N) ^ 3 * currentX s
                        + 3 * (1 - real k / real N) ^ 2 * (real k / real N) * (currentX s + dx1)
                        + 3 * (1 - real k / real N) * (real k / real N) ^ 2 * (currentX s + dx2)
                        + (real k / real N) ^ 3 * (currentX s + dx),
                      (1 - real k / real N) ^ 3 * currentY s
                        + 3 * (1 - real k / real N) ^ 2 * (real k / real N) * (currentY s + dy1)
                        + 3 * (1 - real k / real N) * (real k / real N) ^ 2 * (currentY s + dy2)
                        + (real k / real N) ^ 3 * (currentY s + dy)))
             [1..<Suc N],
          lastControlX := (currentX s + dx2), lastControlY := (currentY s + dy2), currentX := (currentX s + dx), currentY := (currentY s + dy),
          idx := idx s + 6\<rparr>)"
proof -
  have g0: "getNumber ctx tokens s = Inr (dx1, s\<lparr>idx := idx s + 1\<rparr>)" for ctx
    using assms by (simp add: getNumber_at)
  have g1: "getNumber ctx tokens (s\<lparr>idx := idx s + 1\<rparr>) = Inr (dy1, s\<lparr>idx := idx s + 2\<rparr>)" for ctx
    using assms getNumber_later [of s 1 tokens dy1 ctx] by simp
  have g2: "getNumber ctx tokens (s\<lparr>idx := idx s + 2\<rparr>) = Inr (dx2, s\<lparr>idx := idx s + 3\<rparr>)" for ctx
    using assms getNumber_later [of s 2 tokens dx2 ctx] by simp
  have g3: "getNumber ctx tokens (s\<lparr>idx := idx s + 3\<rparr>) = Inr (dy2, s\<lparr>idx := idx s + 4\<rparr>)" for ctx
    using assms getNumber_later [of s 3 tokens dy2 ctx] by simp
  have g4: "getNumber ctx tokens (s\<lparr>idx := idx s + 4\<rparr>) = Inr (dx, s\<lparr>idx := idx s + 5\<rparr>)" for ctx
    using assms getNumber_later [of s 4 tokens dx ctx] by simp
  have g5: "getNumber ctx tokens (s\<lparr>idx := idx s + 5\<rparr>) = Inr (dy, s\<lparr>idx := idx s + 6\<rparr>)" for ctx
    using assms getNumber_later [of s 5 tokens dy ctx] by simp
  have "exec_c (real N) tokens s =
      Inr (emitCubic (real N) ((currentX s + dx1)) ((currentY s + dy1)) ((currentX s + dx2)) ((currentY s + dy2)) ((currentX s + dx)) ((currentY s + dy)) (s\<lparr>idx := idx s + 6\<rparr>))"
    unfolding exec_c_def bindE_def
    by (simp only: g0 g1 g2 g3 g4 g5 sum.case prod.case) (simp add: reflectX_def reflectY_def)
  then show ?thesis
    unfolding emitCubic_explicit by (simp add: execCommand_def)
qed

lemma cubic_S_step:
  assumes "idx s + 4 \<le> length tokens"
    and "tokens ! idx s = Number x2" "tokens ! (idx s + 1) = Number y2" "tokens ! (idx s + 2) = Number x3" "tokens ! (idx s + 3) = Number y3"
  shows "execCommand (real N) as tokens CHR ''S'' isFirstCoordSet s =
    Inr (s\<lparr>absolutePoints := absolutePoints s @
           map (\<lambda>k. ((1 - real k / real N) ^ 3 * currentX s
                        + 3 * (1 - real k / real N) ^ 2 * (real k / real N) * (if afterCubic (lastCommand s) then 2 * currentX s - lastControlX s else currentX s)
                        + 3 * (1 - real k / real N) * (real k / real N) ^ 2 * x2
                        + (real k / real N) ^ 3 * x3,
                      (1 - real k / real N) ^ 3 * currentY s
                        + 3 * (1 - real k / real N) ^ 2 * (real k / real N) * (if afterCubic (lastCommand s) then 2 * currentY s - lastControlY s else currentY s)
                        + 3 * (1 - real k / real N) * (real k / real N) ^ 2 * y2
                        + (real k / real N) ^ 3 * y3))
             [1..<Suc N],
          lastControlX := x2, lastControlY := y2, currentX := x3, currentY := y3,
          idx := idx s + 4\<rparr>)"
proof -
  have g0: "getNumber ctx tokens s = Inr (x2, s\<lparr>idx := idx s + 1\<rparr>)" for ctx
    using assms by (simp add: getNumber_at)
  have g1: "getNumber ctx tokens (s\<lparr>idx := idx s + 1\<rparr>) = Inr (y2, s\<lparr>idx := idx s + 2\<rparr>)" for ctx
    using assms getNumber_later [of s 1 tokens y2 ctx] by simp
  have g2: "getNumber ctx tokens (s\<lparr>idx := idx s + 2\<rparr>) = Inr (x3, s\<lparr>idx := idx s + 3\<rparr>)" for ctx
    using assms getNumber_later [of s 2 tokens x3 ctx] by simp
  have g3: "getNumber ctx tokens (s\<lparr>idx := idx s + 3\<rparr>) = Inr (y3, s\<lparr>idx := idx s + 4\<rparr>)" for ctx
    using assms getNumber_later [of s 3 tokens y3 ctx] by simp
  have "exec_S (real N) tokens s =
      Inr (emitCubic (real N) ((if afterCubic (lastCommand s) then 2 * currentX s - lastControlX s else currentX s)) ((if afterCubic (lastCommand s) then 2 * currentY s - lastControlY s else currentY s)) (x2) (y2) (x3) (y3) (s\<lparr>idx := idx s + 4\<rparr>))"
    unfolding exec_S_def bindE_def
    by (simp only: g0 g1 g2 g3 sum.case prod.case) (simp add: reflectX_def reflectY_def)
  then show ?thesis
    unfolding emitCubic_explicit by (simp add: execCommand_def)
qed

lemma cubic_s_step:
  assumes "idx s + 4 \<le> length tokens"
    and "tokens ! idx s = Number dx2" "tokens ! (idx s + 1) = Number dy2" "tokens ! (idx s + 2) = Number dx" "tokens ! (idx s + 3) = Number dy"
  shows "execCommand (real N) as tokens CHR ''s'' isFirstCoordSet s =
    Inr (s\<lparr>absolutePoints := absolutePoints s @
           map (\<lambda>k. ((1 - real k / real N) ^ 3 * currentX s
                        + 3 * (1 - real k / real N) ^ 2 * (real k / real N) * (if afterCubic (lastCommand s) then 2 * currentX s - lastControlX s else currentX s)
                        + 3 * (1 - real k / real N) * (real k / real N) ^ 2 * (currentX s + dx2)
                        + (real k / real N) ^ 3 * (currentX s + dx),
                      (1 - real k / real N) ^ 3 * currentY s
                        + 3 * (1 - real k / real N) ^ 2 * (real k / real N) * (if afterCubic (lastCommand s) then 2 * currentY s - lastControlY s else currentY s)
                        + 3 * (1 - real k / real N) * (real k / real N) ^ 2 * (currentY s + dy2)
                        + (real k / real N) ^ 3 * (currentY s + dy)))
             [1..<Suc N],
          lastControlX := (currentX s + dx2), lastControlY := (currentY s + dy2), currentX := (currentX s + dx), currentY := (currentY s + dy),
          idx := idx s + 4\<rparr>)"
proof -
  have g0: "getNumber ctx tokens s = Inr (dx2, s\<lparr>idx := idx s + 1\<rparr>)" for ctx
    using assms by (simp add: getNumber_at)
  have g1: "getNumber ctx tokens (s\<lparr>idx := idx s + 1\<rparr>) = Inr (dy2, s\<lparr>idx := idx s + 2\<rparr>)" for ctx
    using assms getNumber_later [of s 1 tokens dy2 ctx] by simp
  have g2: "getNumber ctx tokens (s\<lparr>idx := idx s + 2\<rparr>) = Inr (dx, s\<lparr>idx := idx s + 3\<rparr>)" for ctx
    using assms getNumber_later [of s 2 tokens dx ctx] by simp
  have g3: "getNumber ctx tokens (s\<lparr>idx := idx s + 3\<rparr>) = Inr (dy, s\<lparr>idx := idx s + 4\<rparr>)" for ctx
    using assms getNumber_later [of s 3 tokens dy ctx] by simp
  have "exec_s (real N) tokens s =
      Inr (emitCubic (real N) ((if afterCubic (lastCommand s) then 2 * currentX s - lastControlX s else currentX s)) ((if afterCubic (lastCommand s) then 2 * currentY s - lastControlY s else currentY s)) ((currentX s + dx2)) ((currentY s + dy2)) ((currentX s + dx)) ((currentY s + dy)) (s\<lparr>idx := idx s + 4\<rparr>))"
    unfolding exec_s_def bindE_def
    by (simp only: g0 g1 g2 g3 sum.case prod.case) (simp add: reflectX_def reflectY_def)
  then show ?thesis
    unfolding emitCubic_explicit by (simp add: execCommand_def)
qed

lemma cubic_samples_count_last:
  assumes "0 < N"
  shows "length (map (\<lambda>k. ((1 - real k / real N) ^ 3 * x0
                        + 3 * (1 - real k / real N) ^ 2 * (real k / real N) * x1
                        + 3 * (1 - real k / real N) * (real k / real N) ^ 2 * x2
                        + (real k / real N) ^ 3 * x3,
                      (1 - real k / real N) ^ 3 * y0
                        + 3 * (1 - real k / real N) ^ 2 * (real k / real N) * y1
                        + 3 * (1 - real k / real N) * (real k / real N) ^ 2 * y2
                        + (real k / real N) ^ 3 * y3))
             [1..<Suc N]) = N
    \<and> last (map (\<lambda>k. ((1 - real k / real N) ^ 3 * x0
                        + 3 * (1 - real k / real N) ^ 2 * (real k / real N) * x1
                        + 3 * (1 - real k / real N) * (real k / real N) ^ 2 * x2
                        + (real k / real N) ^ 3 * x3,
                      (1 - real k / real N) ^ 3 * y0
                        + 3 * (1 - real k / real N) ^ 2 * (real k / real N) * y1
                        + 3 * (1 - real k / real N) * (real k / real N) ^ 2 * y2
                        + (real k / real N) ^ 3 * y3))
             [1..<Suc N]) = (x3, y3)"
proof -
  have ne: "[1..<Suc N] \<noteq> []" using assms by simp
  have l: "last [1..<Suc N] = N" using assms by simp
  have one: "real N / real N = 1" using assms by simp
  show ?thesis
    by (simp only: last_map [OF ne] l one length_map) simp
qed

lemma arc_after_origin:
  assumes "0 < N"
  shows "extractAbsolutePoints ''A 50 50 0 0 1 100 100''
           \<lparr>curveSegments = cs, arcSegments = Some (real N)\<rparr> =
         Some (Inr (approximateArc 0 0 50 50 0 False True 100 100 (real N)))"
proof -
  have k: "tokenizePath ''A 50 50 0 0 1 100 100'' =
      Inr [Command CHR ''A'', Number 50, Number 50, Number 0, Number 0, Number 1,
           Number 100, Number 100]"
    by code_simp
  have len: "length (approximateArc 0 0 50 50 0 False True 100 100 (real N)) = N"
    by (simp add: arc_example)
  then have ne: "approximateArc 0 0 50 50 0 False True 100 100 (real N) \<noteq> []"
    using assms by auto
  show ?thesis
    by (simp add: extractAbsolutePoints_def orDefault_def k whileLoop.simps doLoop.simps
        execCommand_def exec_A_def emitArc_def bindE_def getNumber_def repeats_def
        initialInterp_def ne)
qed

text \<open>
  C7: on the path \<open>M0,0 A 50 50 0 0 1 100 100\<close> of the claim the arc flattener is never
  reached and emits no point: after the pair of \<open>M\<close> the loop runs the case \<open>M\<close> again,
  which meets the command \<open>A\<close>, and the call fails, for all options. The facts above show
  what the flatteners do when they are reached: \<open>N\<close> samples of the cubic curve ending at its
  end point, and (\<open>arc_after_origin\<close>, \<open>arc_example_last\<close>, \<open>arc_example_not_start\<close>) for the
  same arc without the move \<open>N\<close> points that end at \<open>(100, 100)\<close> and omit \<open>(0, 0)\<close>.
\<close>

theorem arc_path_is_rejected:
  "extractPointsFromPath ''M0,0 A 50 50 0 0 1 100 100'' options =
     Some (Inl ''Expected number for M command x-coordinate'')
   \<and> convertSvgPathToPolygon ''M0,0 A 50 50 0 0 1 100 100'' options =
     Some (Inl ''Failed to convert path to polygon: Expected number for M command x-coordinate'')"
proof -
  have t: "trim ''M0,0 A 50 50 0 0 1 100 100'' = ''M0,0 A 50 50 0 0 1 100 100''"
    by code_simp
  have v: "isValidSvgPath ''M0,0 A 50 50 0 0 1 100 100''"
    by code_simp
  have k: "tokenizePath ''M0,0 A 50 50 0 0 1 100 100'' =
      Inr [Command CHR ''M'', Number 0, Number 0, Command CHR ''A'', Number 50, Number 50,
           Number 0, Number 0, Number 1, Number 100, Number 100]"
    by code_simp
  have e: "extractPointsFromPath ''M0,0 A 50 50 0 0 1 100 100'' options =
     Some (Inl ''Expected number for M command x-coordinate'')"
    by (simp add: extractPointsFromPath_def extractAbsolutePoints_def k whileLoop.simps
        doLoop.simps interp_defs)
  show ?thesis
    using e by (simp add: convertSvgPathToPolygon_def t v)
qed

subsection \<open>Paths with a move command, and a close followed by a number\<close>

lemma bindE_readE:
  assumes "bindE (getNumber ctx tokens s) (\<lambda>(v, s1). g v s1) = Inr r"
  obtains v s1 where "idx s1 = Suc (idx s)" "idx s < length tokens" "isNumberToken (tokens ! idx s)"
    "g v s1 = Inr r"
proof -
  from assms obtain v where "idx s < length tokens" "tokens ! idx s = Number v"
      "g v (s\<lparr>idx := idx s + 1\<rparr>) = Inr r"
    by (auto simp: bindE_def getNumber_def split: if_splits Token.splits sum.splits)
  then show ?thesis
    using that [of "s\<lparr>idx := idx s + 1\<rparr>" v] by simp
qed

lemma idx_emit [simp]:
  "idx (emitCubic cs x1 y1 x2 y2 x y s) = idx s"
  "idx (emitQuadratic cs x1 y1 x y s) = idx s"
  "idx (emitArc as rx ry rot la sw x y s) = idx s"
  "idx (pushCurrent s) = idx s"
  "idx (markSubpathStart b s) = idx s"
  by (simp_all add: emitCubic_def emitQuadratic_def emitArc_def pushCurrent_def markSubpathStart_def)

lemma exec_reads:
  "exec_M tokens isFirstCoordSet s = Inr s' \<Longrightarrow>
     idx s < idx s' \<and> (\<forall>k. idx s \<le> k \<and> k < idx s' \<longrightarrow> k < length tokens \<and> isNumberToken (tokens ! k))"
  "exec_m tokens isFirstCoordSet s = Inr s' \<Longrightarrow>
     idx s < idx s' \<and> (\<forall>k. idx s \<le> k \<and> k < idx s' \<longrightarrow> k < length tokens \<and> isNumberToken (tokens ! k))"
  "exec_L tokens s = Inr s' \<Longrightarrow>
     idx s < idx s' \<and> (\<forall>k. idx s \<le> k \<and> k < idx s' \<longrightarrow> k < length tokens \<and> isNumberToken (tokens ! k))"
  "exec_l tokens s = Inr s' \<Longrightarrow>
     idx s < idx s' \<and> (\<forall>k. idx s \<le> k \<and> k < idx s' \<longrightarrow> k < length tokens \<and> isNumberToken (tokens ! k))"
  "exec_H tokens s = Inr s' \<Longrightarrow>
     idx s < idx s' \<and> (\<forall>k. idx s \<le> k \<and> k < idx s' \<longrightarrow> k < length tokens \<and> isNumberToken (tokens ! k))"
  "exec_h tokens s = Inr s' \<Longrightarrow>
     idx s < idx s' \<and> (\<forall>k. idx s \<le> k \<and> k < idx s' \<longrightarrow> k < length tokens \<and> isNumberToken (tokens ! k))"
  "exec_V tokens s = Inr s' \<Longrightarrow>
     idx s < idx s' \<and> (\<forall>k. idx s \<le> k \<and> k < idx s' \<longrightarrow> k < length tokens \<and> isNumberToken (tokens ! k))"
  "exec_v tokens s = Inr s' \<Longrightarrow>
     idx s < idx s' \<and> (\<forall>k. idx s \<le> k \<and> k < idx s' \<longrightarrow> k < length tokens \<and> isNumberToken (tokens ! k))"
  "exec_C cs tokens s = Inr s' \<Longrightarrow>
     idx s < idx s' \<and> (\<forall>k. idx s \<le> k \<and> k < idx s' \<longrightarrow> k < length tokens \<and> isNumberToken (tokens ! k))"
  "exec_c cs tokens s = Inr s' \<Longrightarrow>
     idx s < idx s' \<and> (\<forall>k. idx s \<le> k \<and> k < idx s' \<longrightarrow> k < length tokens \<and> isNumberToken (tokens ! k))"
  "exec_S cs tokens s = Inr s' \<Longrightarrow>
     idx s < idx s' \<and> (\<forall>k. idx s \<le> k \<and> k < idx s' \<longrightarrow> k < length tokens \<and> isNumberToken (tokens ! k))"
  "exec_s cs tokens s = Inr s' \<Longrightarrow>
     idx s < idx s' \<and> (\<forall>k. idx s \<le> k \<and> k < idx s' \<longrightarrow> k < length tokens \<and> isNumberToken (tokens ! k))"
  "exec_Q cs tokens s = Inr s' \<Longrightarrow>
     idx s < idx s' \<and> (\<forall>k. idx s \<le> k \<and> k < idx s' \<longrightarrow> k < length tokens \<and> isNumberToken (tokens ! k))"
  "exec_q cs tokens s = Inr s' \<Longrightarrow>
     idx s < idx s' \<and> (\<forall>k. idx s \<le> k \<and> k < idx s' \<longrightarrow> k < length tokens \<and> isNumberToken (tokens ! k))"
  "exec_T cs tokens s = Inr s' \<Longrightarrow>
     idx s < idx s' \<and> (\<forall>k. idx s \<le> k \<and> k < idx s' \<longrightarrow> k < length tokens \<and> isNumberToken (tokens ! k))"
  "exec_t cs tokens s = Inr s' \<Longrightarrow>
     idx s < idx s' \<and> (\<forall>k. idx s \<le> k \<and> k < idx s' \<longrightarrow> k < length tokens \<and> isNumberToken (tokens ! k))"
  "exec_A as tokens s = Inr s' \<Longrightarrow>
     idx s < idx s' \<and> (\<forall>k. idx s \<le> k \<and> k < idx s' \<longrightarrow> k < length tokens \<and> isNumberToken (tokens ! k))"
  "exec_a as tokens s = Inr s' \<Longrightarrow>
     idx s < idx s' \<and> (\<forall>k. idx s \<le> k \<and> k < idx s' \<longrightarrow> k < length tokens \<and> isNumberToken (tokens ! k))"
  unfolding exec_M_def exec_m_def exec_L_def exec_l_def exec_H_def exec_h_def exec_V_def exec_v_def
    exec_C_def exec_c_def exec_S_def exec_s_def exec_Q_def exec_q_def exec_T_def exec_t_def
    exec_A_def exec_a_def
  by ((elim bindE_readE, auto simp: less_Suc_eq le_Suc_eq)[1])+

lemma exec_Z_idx: "exec_Z s = Inr s' \<Longrightarrow> idx s' = idx s"
  by (auto simp: exec_Z_def split: if_splits)

lemma execCommand_progress:
  assumes "execCommand cs as tokens c isFirstCoordSet s = Inr s'"
  shows "idx s \<le> idx s'
    \<and> (\<forall>k. idx s \<le> k \<and> k < idx s' \<longrightarrow> k < length tokens \<and> isNumberToken (tokens ! k))
    \<and> (c \<noteq> CHR ''Z'' \<and> c \<noteq> CHR ''z'' \<longrightarrow> idx s < idx s')"
proof (cases "c = CHR ''Z'' \<or> c = CHR ''z''")
  case True
  then have "exec_Z s = Inr s'" using assms by (auto simp: execCommand_def)
  then have "idx s' = idx s" by (rule exec_Z_idx)
  then show ?thesis using True by auto
next
  case False
  have "idx s < idx s' \<and> (\<forall>k. idx s \<le> k \<and> k < idx s' \<longrightarrow> k < length tokens \<and> isNumberToken (tokens ! k))"
    using assms False unfolding execCommand_def
    by (simp split: if_splits add: exec_reads)
  then show ?thesis by auto
qed


lemma doLoop_sound:
  assumes "doLoop cs as tokens c isFirstCoordSet s = Some r"
  shows "\<forall>s'. r = Inr s' \<longrightarrow>
           c \<noteq> CHR ''M'' \<and> c \<noteq> CHR ''m'' \<and> idx s \<le> idx s'
         \<and> (\<forall>k. idx s \<le> k \<and> k < idx s' \<longrightarrow> k < length tokens \<and> isNumberToken (tokens ! k))"
proof (rule doLoop.raw_induct [where P = "\<lambda>cs as tokens c isFirstCoordSet s r. \<forall>s'. r = Inr s' \<longrightarrow>
           c \<noteq> CHR ''M'' \<and> c \<noteq> CHR ''m'' \<and> idx s \<le> idx s'
         \<and> (\<forall>k. idx s \<le> k \<and> k < idx s' \<longrightarrow> k < length tokens \<and> isNumberToken (tokens ! k))",
      OF _ assms], goal_cases)
  case (1 loop cs as tokens c isFirstCoordSet s r)
  note hyps = 1
  show ?case
  proof (intro allI impI)
    fix s' assume r: "r = Inr s'"
    from hyps(2) r obtain s1 where e: "execCommand cs as tokens c isFirstCoordSet s = Inr s1"
      by (cases "execCommand cs as tokens c isFirstCoordSet s") auto
    define s2 where "s2 = s1\<lparr>lastCommand := [c]\<rparr>"
    have i2: "idx s2 = idx s1" by (simp add: s2_def)
    note p = execCommand_progress [OF e]
    show "c \<noteq> CHR ''M'' \<and> c \<noteq> CHR ''m'' \<and> idx s \<le> idx s'
         \<and> (\<forall>k. idx s \<le> k \<and> k < idx s' \<longrightarrow> k < length tokens \<and> isNumberToken (tokens ! k))"
    proof (cases "repeats tokens c False s2")
      case True
      then have "loop cs as tokens c False s2 = Some r"
        using hyps(2) e by (simp add: s2_def)
      from hyps(1) [OF this] r
      have "c \<noteq> CHR ''M'' \<and> c \<noteq> CHR ''m'' \<and> idx s2 \<le> idx s'
         \<and> (\<forall>k. idx s2 \<le> k \<and> k < idx s' \<longrightarrow> k < length tokens \<and> isNumberToken (tokens ! k))"
        by blast
      with p i2 show ?thesis
        by (metis le_trans not_le_imp_less)
    next
      case False
      then have "Some (Inr s2) = Some r"
        using hyps(2) e by (simp add: s2_def)
      with r have "s' = s2" by simp
      moreover from False have "c \<noteq> CHR ''M'' \<and> c \<noteq> CHR ''m''"
        by (auto simp: repeats_def)
      ultimately show ?thesis using p i2 by simp
    qed
  qed
qed

lemma whileLoop_sound:
  assumes "whileLoop cs as tokens s = Some r"
  shows "\<forall>s'. r = Inr s' \<longrightarrow>
           (\<forall>k. idx s \<le> k \<and> k < length tokens \<longrightarrow>
                tokens ! k \<noteq> Command CHR ''M'' \<and> tokens ! k \<noteq> Command CHR ''m'')"
proof (rule whileLoop.raw_induct [where P = "\<lambda>cs as tokens s r. \<forall>s'. r = Inr s' \<longrightarrow>
           (\<forall>k. idx s \<le> k \<and> k < length tokens \<longrightarrow>
                tokens ! k \<noteq> Command CHR ''M'' \<and> tokens ! k \<noteq> Command CHR ''m'')",
      OF _ assms], goal_cases)
  case (1 loop cs as tokens s r)
  note hyps = 1
  show ?case
  proof (intro allI impI)
    fix s' k assume r: "r = Inr s'" and k: "idx s \<le> k \<and> k < length tokens"
    then have less: "idx s < length tokens" by simp
    from hyps(2) r less obtain c where c: "tokens ! idx s = Command c"
      by (cases "tokens ! idx s") auto
    from hyps(2) r less c obtain s1 where
        d: "doLoop cs as tokens c True (s\<lparr>idx := idx s + 1\<rparr>) = Some (Inr s1)"
        and w: "loop cs as tokens s1 = Some r"
      by (auto split: Option.bind_splits sum.splits)
    from doLoop_sound [OF d]
    have nm: "c \<noteq> CHR ''M'' \<and> c \<noteq> CHR ''m''" and le: "idx s + 1 \<le> idx s1"
      and nums: "\<forall>j. idx s + 1 \<le> j \<and> j < idx s1 \<longrightarrow> j < length tokens \<and> isNumberToken (tokens ! j)"
      by simp_all
    from hyps(1) [OF w] r
    have rest: "\<forall>j. idx s1 \<le> j \<and> j < length tokens \<longrightarrow>
                tokens ! j \<noteq> Command CHR ''M'' \<and> tokens ! j \<noteq> Command CHR ''m''"
      by blast
    consider "k = idx s" | "idx s + 1 \<le> k \<and> k < idx s1" | "idx s1 \<le> k"
      using k by linarith
    then show "tokens ! k \<noteq> Command CHR ''M'' \<and> tokens ! k \<noteq> Command CHR ''m''"
    proof cases
      case 1
      then show ?thesis using c nm by simp
    next
      case 2
      then have "isNumberToken (tokens ! k)" using nums by blast
      then show ?thesis by auto
    next
      case 3
      then show ?thesis using rest k by blast
    qed
  qed
qed

lemma doLoop_close_diverges:
  assumes "c = CHR ''Z'' \<or> c = CHR ''z''"
    and "idx s < length tokens" and "isNumberToken (tokens ! idx s)"
  shows "doLoop cs as tokens c isFirstCoordSet s = None"
proof (rule ccontr)
  assume "doLoop cs as tokens c isFirstCoordSet s \<noteq> None"
  then obtain r where r: "doLoop cs as tokens c isFirstCoordSet s = Some r" by auto
  have "(c = CHR ''Z'' \<or> c = CHR ''z'') \<and> idx s < length tokens \<and> isNumberToken (tokens ! idx s)
      \<longrightarrow> False"
  proof (rule doLoop.raw_induct [where P = "\<lambda>cs as tokens c isFirstCoordSet s r.
      (c = CHR ''Z'' \<or> c = CHR ''z'') \<and> idx s < length tokens \<and> isNumberToken (tokens ! idx s)
      \<longrightarrow> False", OF _ r], goal_cases)
    case (1 loop cs as tokens c isFirstCoordSet s r)
    note hyps = 1
    show ?case
    proof
      assume a: "(c = CHR ''Z'' \<or> c = CHR ''z'') \<and> idx s < length tokens \<and> isNumberToken (tokens ! idx s)"
      then obtain s1 where e: "execCommand cs as tokens c isFirstCoordSet s = Inr s1"
        using exec_close [of c cs as tokens isFirstCoordSet s] by auto
      have i1: "idx s1 = idx s"
        using e a exec_close [of c cs as tokens isFirstCoordSet s] by (auto split: if_splits)
      define s2 where "s2 = s1\<lparr>lastCommand := [c]\<rparr>"
      have i2: "idx s2 = idx s" by (simp add: s2_def i1)
      have "repeats tokens c False s2" using a by (simp add: repeats_def i2)
      then have "loop cs as tokens c False s2 = Some r"
        using hyps(2) e by (simp add: s2_def)
      from hyps(1) [OF this] a i2 show False by simp
    qed
  qed
  with assms show False by simp
qed

lemma doLoop_total:
  assumes "(c = CHR ''Z'' \<or> c = CHR ''z'') \<longrightarrow>
             \<not> (idx s < length tokens \<and> isNumberToken (tokens ! idx s))"
  shows "\<exists>r. doLoop cs as tokens c isFirstCoordSet s = Some r"
  using assms
proof (induction "length tokens - idx s" arbitrary: s isFirstCoordSet rule: less_induct)
  case less
  show ?case
  proof (cases "execCommand cs as tokens c isFirstCoordSet s")
    case (Inl e)
    then show ?thesis by (subst doLoop.simps) simp
  next
    case (Inr s1)
    define s2 where "s2 = s1\<lparr>lastCommand := [c]\<rparr>"
    have i2: "idx s2 = idx s1" by (simp add: s2_def)
    note p = execCommand_progress [OF Inr]
    show ?thesis
    proof (cases "repeats tokens c False s2")
      case False
      then show ?thesis using Inr by (subst doLoop.simps) (simp add: s2_def)
    next
      case True
      have nz: "c \<noteq> CHR ''Z'' \<and> c \<noteq> CHR ''z''"
      proof (rule ccontr)
        assume "\<not> (c \<noteq> CHR ''Z'' \<and> c \<noteq> CHR ''z'')"
        then have z: "c = CHR ''Z'' \<or> c = CHR ''z''" by blast
        then have "idx s1 = idx s"
          using Inr exec_close [of c cs as tokens isFirstCoordSet s] by (auto split: if_splits)
        with True z less.prems show False by (auto simp: repeats_def i2)
      qed
      with p have lt: "idx s < idx s1" by blast
      with p have "idx s < length tokens" by blast
      with lt have m: "length tokens - idx s2 < length tokens - idx s" by (simp add: i2)
      from less.hyps [OF m] nz obtain r where "doLoop cs as tokens c False s2 = Some r" by blast
      then show ?thesis using Inr True by (subst doLoop.simps) (simp add: s2_def)
    qed
  qed
qed

lemma whileLoop_total:
  assumes "\<forall>k. Suc k < length tokens \<and> (tokens ! k = Command CHR ''Z'' \<or> tokens ! k = Command CHR ''z'')
             \<longrightarrow> \<not> isNumberToken (tokens ! Suc k)"
  shows "\<exists>r. whileLoop cs as tokens s = Some r"
proof (induction "length tokens - idx s" arbitrary: s rule: less_induct)
  case less
  show ?case
  proof (cases "idx s < length tokens")
    case False
    then show ?thesis by (subst whileLoop.simps) simp
  next
    case True
    show ?thesis
    proof (cases "tokens ! idx s")
      case (Number v)
      then show ?thesis using True by (subst whileLoop.simps) simp
    next
      case (Command c)
      have "(c = CHR ''Z'' \<or> c = CHR ''z'') \<longrightarrow>
             \<not> (idx (s\<lparr>idx := idx s + 1\<rparr>) < length tokens
                \<and> isNumberToken (tokens ! idx (s\<lparr>idx := idx s + 1\<rparr>)))"
        using assms Command by auto
      from doLoop_total [OF this] obtain d where
        d: "doLoop cs as tokens c True (s\<lparr>idx := idx s + 1\<rparr>) = Some d" by blast
      show ?thesis
      proof (cases d)
        case (Inl e)
        then show ?thesis using True Command d by (subst whileLoop.simps) simp
      next
        case (Inr s1)
        with doLoop_sound [OF d] have "idx s + 1 \<le> idx s1" by simp
        with True have "length tokens - idx s1 < length tokens - idx s" by simp
        from less.hyps [OF this] obtain r where "whileLoop cs as tokens s1 = Some r" by blast
        then show ?thesis using True Command d Inr by (subst whileLoop.simps) simp
      qed
    qed
  qed
qed


text \<open>
  Away from a \<open>Z\<close> or \<open>z\<close> that is directly followed by a number, an input with a move
  command behaves as described: when the trimmed input tokenizes and the tokens contain an
  \<open>M\<close> or \<open>m\<close> command, \<open>convertSvgPathToPolygon\<close> never returns a polygon, and when no
  \<open>Z\<close> or \<open>z\<close> token is directly followed by a number token, the call returns, with an
  error.
\<close>

lemma moveto_never_succeeds:
  assumes tok: "tokenizePath (trim svgPath) = Inr tokens"
    and mv: "Command CHR ''M'' \<in> set tokens \<or> Command CHR ''m'' \<in> set tokens"
  shows "(\<forall>out. convertSvgPathToPolygon svgPath options \<noteq> Some (Inr out))
    \<and> ((\<forall>k. Suc k < length tokens
              \<and> (tokens ! k = Command CHR ''Z'' \<or> tokens ! k = Command CHR ''z'')
              \<longrightarrow> \<not> isNumberToken (tokens ! Suc k))
         \<longrightarrow> (\<exists>e. convertSvgPathToPolygon svgPath options = Some (Inl e)))"
proof (cases "svgPath = [] \<or> trim svgPath = [] \<or> \<not> isValidSvgPath (trim svgPath)")
  case True
  then have "\<exists>e. convertSvgPathToPolygon svgPath options = Some (Inl e)"
    by (auto simp: convertSvgPathToPolygon_def)
  then show ?thesis by auto
next
  case False
  define w where "w = whileLoop (orDefault (curveSegments options) 8)
      (orDefault (arcSegments options) 16) tokens initialInterp"
  have conv: "convertSvgPathToPolygon svgPath options =
      (case w of
         None \<Rightarrow> None
       | Some (Inl e) \<Rightarrow> Some (Inl (''Failed to convert path to polygon: '' @ e))
       | Some (Inr s') \<Rightarrow> convertSvgPathToPolygon svgPath options)"
    using False tok
    by (simp add: convertSvgPathToPolygon_def extractPointsFromPath_def extractAbsolutePoints_def
        w_def split: option.splits sum.splits)
  have notInr: "w \<noteq> Some (Inr s')" for s'
  proof
    assume "w = Some (Inr s')"
    from whileLoop_sound [OF this [unfolded w_def]]
    have "\<forall>k. k < length tokens \<longrightarrow>
        tokens ! k \<noteq> Command CHR ''M'' \<and> tokens ! k \<noteq> Command CHR ''m''"
      by (simp add: initialInterp_def)
    with mv show False by (auto simp: in_set_conv_nth)
  qed
  show ?thesis
  proof (intro conjI allI impI)
    fix out
    show "convertSvgPathToPolygon svgPath options \<noteq> Some (Inr out)"
    proof (cases w)
      case None
      then show ?thesis using conv by simp
    next
      case (Some r)
      with notInr obtain e where "w = Some (Inl e)" by (cases r) auto
      then show ?thesis using conv by simp
    qed
  next
    assume "\<forall>k. Suc k < length tokens
              \<and> (tokens ! k = Command CHR ''Z'' \<or> tokens ! k = Command CHR ''z'')
              \<longrightarrow> \<not> isNumberToken (tokens ! Suc k)"
    from whileLoop_total [OF this] obtain r where "w = Some r"
      unfolding w_def by blast
    with notInr obtain e where "w = Some (Inl e)" by (cases r) auto
    then show "\<exists>e. convertSvgPathToPolygon svgPath options = Some (Inl e)"
      using conv by simp
  qed
qed

text \<open>
  More precisely, the call throws whenever, before some \<open>M\<close> or \<open>m\<close> token, no \<open>Z\<close> or \<open>z\<close>
  token is directly followed by a number token. So \<open>M 1 1 Z 5\<close> throws, at the \<open>M\<close>.
\<close>

lemma whileLoop_throws_at_move:
  assumes p: "p < length tokens"
      "tokens ! p = Command CHR ''M'' \<or> tokens ! p = Command CHR ''m''"
    and nz: "\<forall>k<p. (tokens ! k = Command CHR ''Z'' \<or> tokens ! k = Command CHR ''z'')
               \<longrightarrow> \<not> isNumberToken (tokens ! Suc k)"
  shows "idx s \<le> p \<Longrightarrow> \<exists>e. whileLoop cs as tokens s = Some (Inl e)"
proof (induction "length tokens - idx s" arbitrary: s rule: less_induct)
  case less
  from less.prems p have lt: "idx s < length tokens" by simp
  show ?case
  proof (cases "tokens ! idx s")
    case (Number v)
    then show ?thesis using lt by (subst whileLoop.simps) simp
  next
    case (Command c)
    have close: "(c = CHR ''Z'' \<or> c = CHR ''z'') \<longrightarrow>
             \<not> (idx (s\<lparr>idx := idx s + 1\<rparr>) < length tokens
                \<and> isNumberToken (tokens ! idx (s\<lparr>idx := idx s + 1\<rparr>)))"
    proof (cases "idx s = p")
      case True
      then show ?thesis using p(2) Command by auto
    next
      case False
      with less.prems have "idx s < p" by simp
      then show ?thesis using nz Command by auto
    qed
    from doLoop_total [OF close] obtain d where
      d: "doLoop cs as tokens c True (s\<lparr>idx := idx s + 1\<rparr>) = Some d" by blast
    show ?thesis
    proof (cases d)
      case (Inl e)
      then show ?thesis using lt Command d by (subst whileLoop.simps) simp
    next
      case (Inr s1)
      from doLoop_sound [OF d] Inr
      have nm: "c \<noteq> CHR ''M'' \<and> c \<noteq> CHR ''m''" and le: "idx s + 1 \<le> idx s1"
        and nums: "\<forall>j. idx s + 1 \<le> j \<and> j < idx s1 \<longrightarrow> j < length tokens \<and> isNumberToken (tokens ! j)"
        by simp_all
      from nm Command p(2) have "idx s \<noteq> p" by auto
      with less.prems have "idx s + 1 \<le> p" by simp
      moreover have "\<not> isNumberToken (tokens ! p)" using p(2) by auto
      ultimately have "idx s1 \<le> p" using nums by (meson not_le_imp_less)
      moreover from le lt have "length tokens - idx s1 < length tokens - idx s" by simp
      ultimately obtain e where "whileLoop cs as tokens s1 = Some (Inl e)"
        using less.hyps by blast
      then show ?thesis using lt Command d Inr by (subst whileLoop.simps) simp
    qed
  qed
qed

lemma moveto_throws:
  assumes tok: "tokenizePath (trim svgPath) = Inr tokens"
    and p: "p < length tokens"
      "tokens ! p = Command CHR ''M'' \<or> tokens ! p = Command CHR ''m''"
    and nz: "\<forall>k<p. (tokens ! k = Command CHR ''Z'' \<or> tokens ! k = Command CHR ''z'')
               \<longrightarrow> \<not> isNumberToken (tokens ! Suc k)"
  shows "\<exists>e. convertSvgPathToPolygon svgPath options = Some (Inl e)"
proof (cases "svgPath = [] \<or> trim svgPath = [] \<or> \<not> isValidSvgPath (trim svgPath)")
  case True
  then show ?thesis by (auto simp: convertSvgPathToPolygon_def)
next
  case False
  obtain e where "whileLoop (orDefault (curveSegments options) 8)
      (orDefault (arcSegments options) 16) tokens initialInterp = Some (Inl e)"
    using whileLoop_throws_at_move [OF p nz, of initialInterp] by (auto simp: initialInterp_def)
  then show ?thesis
    using False tok
    by (simp add: convertSvgPathToPolygon_def extractPointsFromPath_def extractAbsolutePoints_def)
qed

text \<open>
  C2: on \<open>Z 5 M 1 1\<close> the input tokenizes and has an \<open>M\<close> token, and yet
  \<open>convertSvgPathToPolygon\<close> throws no error: the loop of the command \<open>Z\<close> finds a number
  next, runs the case \<open>Z\<close> again without consuming anything, and never ends. The call does
  not return.
\<close>

theorem close_then_number_hangs:
  "tokenizePath (trim ''Z 5 M 1 1'') =
      Inr [Command CHR ''Z'', Number 5, Command CHR ''M'', Number 1, Number 1]
   \<and> Command CHR ''M'' \<in> set [Command CHR ''Z'', Number 5, Command CHR ''M'', Number 1, Number 1]
   \<and> convertSvgPathToPolygon ''Z 5 M 1 1'' defaultOptions = None"
proof -
  have t: "trim ''Z 5 M 1 1'' = ''Z 5 M 1 1''" by code_simp
  have v: "isValidSvgPath ''Z 5 M 1 1''" by code_simp
  have k: "tokenizePath ''Z 5 M 1 1'' =
      Inr [Command CHR ''Z'', Number 5, Command CHR ''M'', Number 1, Number 1]"
    by code_simp
  have d: "doLoop 8 16 [Command CHR ''Z'', Number 5, Command CHR ''M'', Number 1, Number 1]
      CHR ''Z'' True (initialInterp\<lparr>idx := 0 + 1\<rparr>) = None"
    by (rule doLoop_close_diverges) simp_all
  have w: "whileLoop 8 16 [Command CHR ''Z'', Number 5, Command CHR ''M'', Number 1, Number 1]
      initialInterp = None"
    by (subst whileLoop.simps) (simp add: d [unfolded initialInterp_def, simplified] initialInterp_def)
  show ?thesis
    by (simp add: convert_defs t v k w)
qed

end
